theory Spec2Isabelle
  imports Main
begin

section \<open>JavaScript values shared by the embedded components\<close>

text \<open>
  A property of a JSON object that the code reads can be missing (\<open>undefined\<close>),
  \<open>null\<close>, or hold a value. The code tells the three apart (\<open>!== undefined\<close> against
  a truthiness test), so the embedding keeps them apart too.
\<close>

datatype 'a js_opt = Undefined | Null | Val 'a

text \<open>
  Strings are \<open>string\<close>, one \<open>char\<close> per code unit, for the code units of Latin-1: the
  case mapping and the white-space test are those of JavaScript on that range.
  A number of the code is a double. Where the code treats it as an integer (minutes, byte
  sizes, millisecond clocks, identifiers) the embedding holds the integer as \<open>int\<close> or
  \<open>nat\<close>, and division and printing round as doubles do: they are exact on the integers
  up to \<open>2^53 - 1\<close> and not beyond.
\<close>

subsection \<open>Decimal digits\<close>

definition digit_char :: "nat \<Rightarrow> char" where
  "digit_char d = ''0123456789'' ! d"

fun show_nat :: "nat \<Rightarrow> string" where
  "show_nat n = (if n < 10 then [digit_char n] else show_nat (n div 10) @ [digit_char (n mod 10)])"

declare show_nat.simps [simp del]

definition show_int :: "int \<Rightarrow> string" where
  "show_int i = (if i < 0 then CHR ''-'' # show_nat (nat (- i)) else show_nat (nat i))"

subsection \<open>Number operators\<close>

text \<open>
  The number of binary digits of a natural number, and rounding of a quotient of natural
  numbers to the nearest integer, a tie going to the even one.
\<close>

fun bit_length :: "nat \<Rightarrow> nat" where
  "bit_length n = (if n = 0 then 0 else Suc (bit_length (n div 2)))"

declare bit_length.simps [simp del]

definition round_half_even :: "nat \<Rightarrow> nat \<Rightarrow> nat" where
  "round_half_even num den =
     (let q = num div den; r = num mod den
      in if 2 * r > den \<or> (2 * r = den \<and> odd q) then q + 1 else q)"

text \<open>
  The double nearest to a natural number: every natural number below \<open>2^53\<close> is a double;
  from there on a double keeps the 53 leading binary digits.
\<close>

definition round_double :: "nat \<Rightarrow> nat" where
  "round_double x =
     (if x < 2 ^ 53 then x
      else let e = bit_length x - 53 in round_half_even x (2 ^ e) * 2 ^ e)"

text \<open>
  \<open>Math.floor(a / b)\<close> for doubles that hold the natural numbers \<open>a\<close> and \<open>b\<close>, \<open>b\<close> not
  zero: the quotient is rounded to 53 binary digits first, and the floor is taken of the
  rounded quotient.
\<close>

definition js_floor_div :: "nat \<Rightarrow> nat \<Rightarrow> nat" where
  "js_floor_div a b =
     (if a < b then 0
      else let n = bit_length (a div b)
           in if n \<le> 53 then round_half_even (a * 2 ^ (53 - n)) b div 2 ^ (53 - n)
              else round_half_even a (b * 2 ^ (n - 53)) * 2 ^ (n - 53))"

text \<open>\<open>a % b\<close> truncates: its result has the sign of the dividend, and is exact.\<close>

definition js_rem :: "int \<Rightarrow> int \<Rightarrow> int" where
  "js_rem a b = sgn a * (\<bar>a\<bar> mod \<bar>b\<bar>)"

subsection \<open>Numbers in template literals\<close>

text \<open>
  A double that holds a natural number is printed with the fewest significant digits that
  still read back as the same double. Below \<open>2^53\<close> these are all its digits. From there
  on the decimals of \<open>k\<close> significant digits next to the number are tried for
  \<open>k = 1, 2, ...\<close>; of two that read back as the number the closer one is taken, the even
  one on a tie. A result of more than 21 digits is printed with an exponent.
\<close>

definition decimal_near :: "nat \<Rightarrow> nat \<Rightarrow> nat option" where
  "decimal_near x k =
     (let p = 10 ^ (length (show_nat x) - k);
          lo = (x div p) * p;
          hi = lo + p;
          lo_ok = (round_double lo = x);
          hi_ok = (round_double hi = x)
      in if lo_ok \<and> hi_ok then
           (if x - lo < hi - x then Some lo
            else if hi - x < x - lo then Some hi
            else if even (x div p) then Some lo else Some hi)
         else if lo_ok then Some lo
         else if hi_ok then Some hi
         else None)"

definition shortest_decimal :: "nat \<Rightarrow> nat" where
  "shortest_decimal x =
     (case List.map_filter (decimal_near x) [1..<length (show_nat x)] of
        [] \<Rightarrow> x
      | v # vs \<Rightarrow> v)"

definition exponent_form :: "nat \<Rightarrow> string" where
  "exponent_form v =
     (let ds = show_nat v;
          sig = rev (dropWhile (\<lambda>c. c = CHR ''0'') (rev ds));
          ex = ''e+'' @ show_nat (length ds - 1)
      in case sig of
           [] \<Rightarrow> ds
         | [d] \<Rightarrow> d # ex
         | d # more \<Rightarrow> d # CHR ''.'' # more @ ex)"

definition number_toString :: "nat \<Rightarrow> string" where
  "number_toString x =
     (if x < 2 ^ 53 then show_nat x
      else let v = shortest_decimal x
           in if v < 10 ^ 21 then show_nat v else exponent_form v)"

definition int_toString :: "int \<Rightarrow> string" where
  "int_toString i =
     (if i < 0 then CHR ''-'' # number_toString (nat (- i)) else number_toString (nat i))"

subsection \<open>String methods\<close>

text \<open>
  \<^verbatim>\<open>toLowerCase\<close> on Latin-1: the letters \<open>A\<close> to \<open>Z\<close> and the capital letters from
  \<open>0xC0\<close> to \<open>0xDE\<close> (the multiplication sign \<open>0xD7\<close> is not one) go to the code unit
  32 higher; every other code unit stays.
\<close>

definition upper_letters :: string where
  "upper_letters =
     ''ABCDEFGHIJKLMNOPQRSTUVWXYZ'' @
       [CHR 0xC0, CHR 0xC1, CHR 0xC2, CHR 0xC3, CHR 0xC4, CHR 0xC5, CHR 0xC6, CHR 0xC7,
        CHR 0xC8, CHR 0xC9, CHR 0xCA, CHR 0xCB, CHR 0xCC, CHR 0xCD, CHR 0xCE, CHR 0xCF,
        CHR 0xD0, CHR 0xD1, CHR 0xD2, CHR 0xD3, CHR 0xD4, CHR 0xD5, CHR 0xD6, CHR 0xD8,
        CHR 0xD9, CHR 0xDA, CHR 0xDB, CHR 0xDC, CHR 0xDD, CHR 0xDE]"

definition lower_letters :: string where
  "lower_letters =
     ''abcdefghijklmnopqrstuvwxyz'' @
       [CHR 0xE0, CHR 0xE1, CHR 0xE2, CHR 0xE3, CHR 0xE4, CHR 0xE5, CHR 0xE6, CHR 0xE7,
        CHR 0xE8, CHR 0xE9, CHR 0xEA, CHR 0xEB, CHR 0xEC, CHR 0xED, CHR 0xEE, CHR 0xEF,
        CHR 0xF0, CHR 0xF1, CHR 0xF2, CHR 0xF3, CHR 0xF4, CHR 0xF5, CHR 0xF6, CHR 0xF8,
        CHR 0xF9, CHR 0xFA, CHR 0xFB, CHR 0xFC, CHR 0xFD, CHR 0xFE]"

definition to_lower_char :: "char \<Rightarrow> char" where
  "to_lower_char c =
     (case map_of (zip upper_letters lower_letters) c of
        None \<Rightarrow> c
      | Some l \<Rightarrow> l)"

definition toLowerCase :: "string \<Rightarrow> string" where
  "toLowerCase s = map to_lower_char s"

definition is_space :: "char \<Rightarrow> bool" where
  "is_space c = (c \<in> set [CHR 0x09, CHR 0x0A, CHR 0x0B, CHR 0x0C, CHR 0x0D, CHR 0x20, CHR 0xA0])"

definition trim :: "string \<Rightarrow> string" where
  "trim s = rev (dropWhile is_space (rev (dropWhile is_space s)))"

text \<open>
  \<^verbatim>\<open>s.split(sep)\<close> with a one-character separator: the result is never empty, and a
  string without the separator comes back whole, as the only element.
\<close>

fun split_on :: "char \<Rightarrow> string \<Rightarrow> string list" where
  "split_on sep [] = [[]]"
| "split_on sep (x # xs) =
     (if x = sep then [] # split_on sep xs
      else (case split_on sep xs of
              [] \<Rightarrow> [[x]]
            | w # ws \<Rightarrow> (x # w) # ws))"

text \<open>\<^verbatim>\<open>arr.pop()\<close> as a value: the last element, \<open>undefined\<close> on an empty array.\<close>

definition pop :: "'a list \<Rightarrow> 'a js_opt" where
  "pop xs = (if xs = [] then Undefined else Val (last xs))"

fun starts_with :: "string \<Rightarrow> string \<Rightarrow> bool" where
  "starts_with s [] = True"
| "starts_with [] (y # ys) = False"
| "starts_with (x # xs) (y # ys) = (x = y \<and> starts_with xs ys)"

fun includes_str :: "string \<Rightarrow> string \<Rightarrow> bool" where
  "includes_str [] t = (t = [])"
| "includes_str (x # xs) t = (starts_with (x # xs) t \<or> includes_str xs t)"

fun join :: "string \<Rightarrow> string list \<Rightarrow> string" where
  "join sep [] = []"
| "join sep [x] = x"
| "join sep (x # y # ys) = x @ sep @ join sep (y # ys)"

text \<open>
  \<^verbatim>\<open>name.replace(/\.[^/.]+$/, "")\<close>: the pattern can only match at the last dot of the
  name, and does so when what follows the dot is not empty and has no slash.
\<close>

definition strip_extension :: "string \<Rightarrow> string" where
  "strip_extension nm =
     (let segs = split_on CHR ''.'' nm; suffix = last segs
      in if 2 \<le> length segs \<and> suffix \<noteq> [] \<and> CHR ''/'' \<notin> set suffix
         then take (length nm - length suffix - 1) nm
         else nm)"

section \<open>utils/helpers.js\<close>

text \<open>
  \<^verbatim>\<open>formatStudyTime(minutes)\<close> for an argument that is missing, \<open>null\<close> or a double that
  holds an integer: \<open>!minutes\<close> holds for \<open>undefined\<close>, \<open>null\<close> and \<open>0\<close>. The division is
  reached with \<open>minutes\<close> from 60 on only.
\<close>

definition formatStudyTime :: "int js_opt \<Rightarrow> string" where
  "formatStudyTime arg =
     (case arg of
        Undefined \<Rightarrow> ''TBD''
      | Null \<Rightarrow> ''TBD''
      | Val minutes \<Rightarrow>
          if minutes = 0 then ''TBD''
          else if minutes < 60 then int_toString minutes @ '' min''
          else
            let hours = js_floor_div (nat minutes) 60;
                remainingMinutes = js_rem minutes 60
            in if remainingMinutes = 0 then number_toString hours @ ''h''
               else number_toString hours @ ''h '' @ int_toString remainingMinutes @ ''m'')"

section \<open>components/UploadTab.js\<close>

text \<open>
  The \<open>File\<close> handed to \<^verbatim>\<open>handleFileSelect\<close> has a name and a size in bytes. The form
  state is \<^verbatim>\<open>formData\<close>; the toasts raised and the files handed to a \<open>FileReader\<close> are
  recorded in the state, in order.
\<close>

record js_file =
  file_name :: string
  file_size :: nat

record form_data =
  form_name :: string
  form_content :: string

record upload_state =
  formData :: form_data
  upload_toasts :: "string list"
  reading :: "js_file list"

definition allowedTypes :: "string list" where
  "allowedTypes = [''.txt'', ''.md'']"

definition maxSize :: nat where
  "maxSize = 10 * 1024 * 1024"

text \<open>
  \<open>split\<close> never returns an empty array, so \<open>pop\<close> here always yields a string; the
  \<open>undefined\<close> branch (a \<open>TypeError\<close> on \<open>toLowerCase\<close>) is kept as \<open>None\<close>.
\<close>

definition fileExtension :: "js_file \<Rightarrow> string option" where
  "fileExtension file =
     (case pop (split_on CHR ''.'' (file_name file)) of
        Val seg \<Rightarrow> Some (''.'' @ toLowerCase seg)
      | _ \<Rightarrow> None)"

definition handleFileSelect :: "js_file \<Rightarrow> upload_state \<Rightarrow> upload_state option" where
  "handleFileSelect file st =
     (case fileExtension file of
        None \<Rightarrow> None
      | Some ext \<Rightarrow>
          if ext \<notin> set allowedTypes then
            Some (st\<lparr>upload_toasts := upload_toasts st @ [''Please select a .txt or .md file'']\<rparr>)
          else if file_size file > maxSize then
            Some (st\<lparr>upload_toasts := upload_toasts st @ [''File size must be less than 10MB'']\<rparr>)
          else
            Some (st\<lparr>reading := reading st @ [file]\<rparr>))"

text \<open>The reader's callbacks: \<^verbatim>\<open>prev.name || ...\<close> keeps a name that is not empty.\<close>

definition reader_onload :: "js_file \<Rightarrow> string \<Rightarrow> upload_state \<Rightarrow> upload_state" where
  "reader_onload file result st =
     st\<lparr>formData :=
          \<lparr>form_name = (if form_name (formData st) \<noteq> [] then form_name (formData st)
                        else strip_extension (file_name file)),
           form_content = result\<rparr>,
        upload_toasts := upload_toasts st @ [''File loaded successfully''],
        reading := remove1 file (reading st)\<rparr>"

definition reader_onerror :: "js_file \<Rightarrow> upload_state \<Rightarrow> upload_state" where
  "reader_onerror file st =
     st\<lparr>upload_toasts := upload_toasts st @ [''Error reading file''],
        reading := remove1 file (reading st)\<rparr>"

text \<open>
  The reading of the words "its extension": the text of the name from its last dot on,
  for a name that has a dot; a name without a dot has no extension. A file is acceptable
  when its extension, lower-cased, is \<open>.txt\<close> or \<open>.md\<close> and it holds at most
  \<open>10 * 1024 * 1024\<close> bytes.
\<close>

definition extension_of_name :: "string \<Rightarrow> string option" where
  "extension_of_name nm =
     (if CHR ''.'' \<in> set nm
      then Some (CHR ''.'' # rev (takeWhile (\<lambda>c. c \<noteq> CHR ''.'') (rev nm)))
      else None)"

definition acceptable_file :: "js_file \<Rightarrow> bool" where
  "acceptable_file file =
     ((case extension_of_name (file_name file) of
         None \<Rightarrow> False
       | Some e \<Rightarrow> toLowerCase e = ''.txt'' \<or> toLowerCase e = ''.md'')
      \<and> file_size file \<le> 10 * 1024 * 1024)"

section \<open>components/ContentItem.js and components/LibraryTab.js\<close>

text \<open>The fields of a Content object that the components read.\<close>

record content_item =
  content_id :: nat
  content_name :: string
  content_text :: string
  processed :: bool
  difficulty_level :: "string js_opt"
  key_concepts :: "string list js_opt"
  estimated_study_time :: "int js_opt"
  created_at :: string

text \<open>The status text of \<^verbatim>\<open>ContentItem\<close> (and of the modal): it reads \<open>processed\<close> only.\<close>

definition status_text :: "content_item \<Rightarrow> string" where
  "status_text c = (if processed c then ''Analyzed'' else ''Analyzing...'')"

text \<open>
  \<^verbatim>\<open>renderConcepts\<close>: nothing for a missing or empty list, else the first three concepts
  and the count of the others (\<open>length - 3\<close>, shown as "+n more" when positive).
\<close>

record concepts_preview =
  visibleConcepts :: "string list"
  remainingCount :: int
  shows_more :: bool

definition renderConcepts :: "content_item \<Rightarrow> concepts_preview option" where
  "renderConcepts c =
     (case key_concepts c of
        Val ks \<Rightarrow>
          if length ks = 0 then None
          else Some \<lparr>visibleConcepts = take 3 ks,
                     remainingCount = int (length ks) - 3,
                     shows_more = (int (length ks) - 3 > 0)\<rparr>
      | _ \<Rightarrow> None)"

record filters =
  filter_search :: string
  filter_difficulty :: string
  filter_status :: string

definition matches_search :: "string \<Rightarrow> content_item \<Rightarrow> bool" where
  "matches_search searchTerm c =
     (includes_str (toLowerCase (content_name c)) searchTerm \<or>
      includes_str (toLowerCase (content_text c)) searchTerm \<or>
      (case key_concepts c of
         Val ks \<Rightarrow> list_ex (\<lambda>concept. includes_str (toLowerCase concept) searchTerm) ks
       | _ \<Rightarrow> False))"

definition matches_status :: "string \<Rightarrow> content_item \<Rightarrow> bool" where
  "matches_status st c =
     (if st = ''processed'' then processed c
      else if st = ''processing'' then \<not> processed c
      else True)"

definition filterContents :: "filters \<Rightarrow> content_item list \<Rightarrow> content_item list" where
  "filterContents f contents =
     (let filtered1 = (if filter_search f \<noteq> []
                       then filter (matches_search (toLowerCase (filter_search f))) contents
                       else contents);
          filtered2 = (if filter_difficulty f \<noteq> []
                       then filter (\<lambda>c. difficulty_level c = Val (filter_difficulty f)) filtered1
                       else filtered1)
      in if filter_status f \<noteq> []
         then filter (matches_status (filter_status f)) filtered2
         else filtered2)"

section \<open>components/DebugToolbar.js\<close>

text \<open>
  The debug trace as the toolbar reads it. The timings of the two search paths and the
  error annotation are optional; the list of extracted keywords may be missing too.
\<close>

record query_analysis =
  original_query :: string
  extracted_keywords :: "string list js_opt"
  embedding_model :: string
  search_time_ms :: int
  keyword_search_time_ms :: "int js_opt"
  vector_search_time_ms :: "int js_opt"
  total_indexed_contents :: int
  qa_error :: "string js_opt"

text \<open>
  Of the trace, the toolbar's query-analysis section reads \<open>query_analysis\<close> only; the
  passages and the processing information belong to the two other sections.
\<close>

record debug_info =
  dbg_query_analysis :: "query_analysis option"

text \<open>
  What React puts on the page for a child expression: a string, a number, or nothing for
  \<open>undefined\<close>, \<open>null\<close> and \<open>false\<close>.
\<close>

datatype child = Text string | Number int | Nothing

definition child_of_num :: "int js_opt \<Rightarrow> child" where
  "child_of_num v = (case v of Val n \<Rightarrow> Number n | _ \<Rightarrow> Nothing)"

record debug_item =
  item_label :: string
  item_children :: "child list"
  item_red :: bool

definition debug_info_item :: "string \<Rightarrow> child list \<Rightarrow> debug_item" where
  "debug_info_item l cs = \<lparr>item_label = l, item_children = cs, item_red = False\<rparr>"

text \<open>A string is truthy when it is not empty; an array always is.\<close>

definition truthy_string :: "string js_opt \<Rightarrow> bool" where
  "truthy_string v = (case v of Val s \<Rightarrow> s \<noteq> [] | _ \<Rightarrow> False)"

text \<open>The content of the expanded "Query Analysis" section, item by item.\<close>

definition render_query_analysis :: "query_analysis \<Rightarrow> debug_item list" where
  "render_query_analysis qa =
     [debug_info_item ''Original Query:'' [Text (original_query qa)]] @
     (case extracted_keywords qa of
        Val ks \<Rightarrow>
          if length ks > 0
          then [debug_info_item ''Extracted Keywords:'' [Text (join '', '' ks)]]
          else []
      | _ \<Rightarrow> []) @
     [debug_info_item ''Embedding Model:'' [Text (embedding_model qa)]] @
     [debug_info_item ''Total Search Time:'' [Number (search_time_ms qa), Text ''ms'']] @
     (if keyword_search_time_ms qa \<noteq> Undefined
      then [debug_info_item ''Keyword Search Time:''
              [child_of_num (keyword_search_time_ms qa), Text ''ms'']]
      else []) @
     (if vector_search_time_ms qa \<noteq> Undefined
      then [debug_info_item ''Vector Search Time:''
              [child_of_num (vector_search_time_ms qa), Text ''ms'']]
      else []) @
     [debug_info_item ''Total Indexed Contents:'' [Number (total_indexed_contents qa)]] @
     (if truthy_string (qa_error qa)
      then [\<lparr>item_label = ''Error:'',
              item_children = [case qa_error qa of Val e \<Rightarrow> Text e | _ \<Rightarrow> Nothing],
              item_red = True\<rparr>]
      else [])"

text \<open>
  The section itself: present when the trace has a query analysis
  (\<^verbatim>\<open>debugInfo?.query_analysis\<close>), with its content when the section is expanded.
\<close>

definition query_section :: "debug_info option \<Rightarrow> bool \<Rightarrow> debug_item list option" where
  "query_section debugInfo expanded =
     (case debugInfo of
        None \<Rightarrow> None
      | Some d \<Rightarrow>
          (case dbg_query_analysis d of
             None \<Rightarrow> None
           | Some qa \<Rightarrow> Some (if expanded then render_query_analysis qa else [])))"

section \<open>components/ChatTab.js\<close>

text \<open>
  A message as the chat tab reads it. Its \<open>id\<close> is a number for the temporary message
  that \<^verbatim>\<open>sendMessage\<close> makes (\<^verbatim>\<open>Date.now()\<close>); the server's messages carry their own
  identifiers, numbers or strings, and \<open>!==\<close> compares them without conversion.
\<close>

datatype js_key = KNum nat | KStr string

record message =
  msg_role :: string
  msg_content :: string
  msg_timestamp :: string
  msg_id :: "js_key js_opt"

record session =
  session_id :: string
  session_title :: string

text \<open>
  The outcome of an \<open>axios\<close> request: it resolves with the response body, or rejects,
  with the status of the response when there was one.
\<close>

datatype 'a http_result = Failed "nat option" | Ok 'a

text \<open>
  The body of the message list: a bare array, or an object that holds the array under
  \<open>messages\<close>, with the debug trace beside it when there is one.
\<close>

datatype messages_data = Bare "message list" | Wrapped "message list" "debug_info option"

text \<open>\<^verbatim>\<open>response.data.messages || response.data\<close>\<close>

definition newMessages_of :: "messages_data \<Rightarrow> message list" where
  "newMessages_of d = (case d of Bare ms \<Rightarrow> ms | Wrapped ms dbg \<Rightarrow> ms)"

definition debug_info_of :: "messages_data \<Rightarrow> debug_info option" where
  "debug_info_of d = (case d of Bare ms \<Rightarrow> None | Wrapped ms dbg \<Rightarrow> dbg)"

text \<open>
  The state of the component, with the browser's table of running intervals
  (identifier to period in milliseconds; identifiers are positive and handed out in
  increasing order) and the toasts shown so far.
\<close>

record chat_state =
  currentSession :: "session option"
  messages :: "message list"
  messageInput :: string
  isSending :: bool
  isPolling :: bool
  debugInfo :: "debug_info option"
  pollingIntervalRef :: "nat option"
  timers :: "nat \<rightharpoonup> nat"
  lastTimer :: nat
  toasts :: "string list"

definition toast :: "string \<Rightarrow> chat_state \<Rightarrow> chat_state" where
  "toast t s = s\<lparr>toasts := toasts s @ [t]\<rparr>"

text \<open>
  \<^verbatim>\<open>stopPolling\<close>: the interval cleared is the one the ref holds now; a ref that is
  \<open>null\<close> (or \<open>0\<close>) clears nothing.
\<close>

definition stopPolling :: "chat_state \<Rightarrow> chat_state" where
  "stopPolling s =
     (let s1 = s\<lparr>isPolling := False\<rparr>
      in case pollingIntervalRef s1 of
           None \<Rightarrow> s1
         | Some t \<Rightarrow>
             if t = 0 then s1
             else s1\<lparr>timers := (timers s1)(t := None), pollingIntervalRef := None\<rparr>)"

text \<open>\<^verbatim>\<open>startPolling\<close>: a new interval of 1000 ms; the ref is overwritten with it.\<close>

definition startPolling :: "chat_state \<Rightarrow> chat_state" where
  "startPolling s =
     (let t = Suc (lastTimer s)
      in s\<lparr>isPolling := True,
           timers := (timers s)(t \<mapsto> 1000),
           lastTimer := t,
           pollingIntervalRef := Some t\<rparr>)"

text \<open>\<^verbatim>\<open>newMessages[newMessages.length - 1]\<close> is \<open>undefined\<close> on an empty array.\<close>

definition lastMessage_of :: "message list \<Rightarrow> message option" where
  "lastMessage_of ms = (if ms = [] then None else Some (last ms))"

text \<open>
  One run of the interval's callback, request and handling of its outcome together, for
  the interval \<open>t\<close>. An interval that has been cleared does not fire. A rejected request
  is logged and nothing else happens.
\<close>

definition poll_tick :: "nat \<Rightarrow> messages_data http_result \<Rightarrow> chat_state \<Rightarrow> chat_state" where
  "poll_tick t response s =
     (if timers s t = None then s
      else case response of
        Failed status \<Rightarrow> s
      | Ok d \<Rightarrow>
          let newMessages = newMessages_of d
          in case lastMessage_of newMessages of
               Some lastMessage \<Rightarrow>
                 if msg_role lastMessage = ''assistant'' then
                   let s1 = s\<lparr>messages := newMessages\<rparr>;
                       s2 = (case debug_info_of d of
                               None \<Rightarrow> s1
                             | Some dbg \<Rightarrow> s1\<lparr>debugInfo := Some dbg\<rparr>)
                   in toast ''AI has responded!'' (stopPolling s2)
                 else s\<lparr>messages := newMessages\<rparr>
             | None \<Rightarrow> s\<lparr>messages := newMessages\<rparr>)"

text \<open>The interval firing once per response of the list, in order.\<close>

fun poll_run :: "nat \<Rightarrow> messages_data http_result list \<Rightarrow> chat_state \<Rightarrow> chat_state" where
  "poll_run t [] s = s"
| "poll_run t (r # rs) s = poll_run t rs (poll_tick t r s)"

text \<open>
  \<^verbatim>\<open>sendMessage\<close>. The clock is read for the temporary message (\<open>stamp\<close> for
  \<^verbatim>\<open>toISOString()\<close>, \<open>now\<close> for \<^verbatim>\<open>Date.now()\<close>). The part before the \<open>await\<close> and the
  part after it are two functions; \<open>sendMessage\<close> runs them one after the other.
\<close>

definition can_send :: "chat_state \<Rightarrow> bool" where
  "can_send s = (\<not> (trim (messageInput s) = [] \<or> currentSession s = None \<or> isSending s))"

definition tempUserMessage :: "string \<Rightarrow> nat \<Rightarrow> chat_state \<Rightarrow> message" where
  "tempUserMessage stamp now s =
     \<lparr>msg_role = ''user'', msg_content = trim (messageInput s),
      msg_timestamp = stamp, msg_id = Val (KNum now)\<rparr>"

definition sendMessage_begin :: "string \<Rightarrow> nat \<Rightarrow> chat_state \<Rightarrow> chat_state" where
  "sendMessage_begin stamp now s =
     s\<lparr>messageInput := [], isSending := True,
        messages := messages s @ [tempUserMessage stamp now s]\<rparr>"

definition sendMessage_settle :: "message \<Rightarrow> 'r http_result \<Rightarrow> chat_state \<Rightarrow> chat_state" where
  "sendMessage_settle tmp result s =
     (let s1 = (case result of
                  Ok response \<Rightarrow> toast ''Message sent! AI is thinking...'' (startPolling s)
                | Failed status \<Rightarrow>
                    let s2 = (if status = Some 401
                              then toast ''Please log in to send messages'' s
                              else toast ''Failed to send message'' s)
                    in s2\<lparr>messages := filter (\<lambda>msg. msg_id msg \<noteq> msg_id tmp) (messages s2)\<rparr>)
      in s1\<lparr>isSending := False\<rparr>)"

definition sendMessage :: "string \<Rightarrow> nat \<Rightarrow> 'r http_result \<Rightarrow> chat_state \<Rightarrow> chat_state" where
  "sendMessage stamp now result s =
     (if \<not> can_send s then s
      else sendMessage_settle (tempUserMessage stamp now s) result (sendMessage_begin stamp now s))"

text \<open>
  While the POST is under way the intervals go on firing. \<open>sendMessage_during\<close> is
  \<^verbatim>\<open>sendMessage\<close> with the firings that fall between the two parts, each with the
  interval that fires and the outcome of its request.
\<close>

fun poll_ticks :: "(nat \<times> messages_data http_result) list \<Rightarrow> chat_state \<Rightarrow> chat_state" where
  "poll_ticks [] s = s"
| "poll_ticks (tr # trs) s = poll_ticks trs (poll_tick (fst tr) (snd tr) s)"

definition sendMessage_during ::
  "string \<Rightarrow> nat \<Rightarrow> (nat \<times> messages_data http_result) list \<Rightarrow> 'r http_result \<Rightarrow>
   chat_state \<Rightarrow> chat_state" where
  "sendMessage_during stamp now ticks result s =
     (if \<not> can_send s then s
      else sendMessage_settle (tempUserMessage stamp now s) result
             (poll_ticks ticks (sendMessage_begin stamp now s)))"

text \<open>A poll ends the loop when its list ends with a message of the assistant.\<close>

definition ends_polling :: "messages_data http_result \<Rightarrow> bool" where
  "ends_polling r =
     (case r of
        Failed status \<Rightarrow> False
      | Ok d \<Rightarrow> newMessages_of d \<noteq> [] \<and> msg_role (last (newMessages_of d)) = ''assistant'')"

text \<open>The state of a freshly mounted chat tab (the arguments of \<^verbatim>\<open>useState\<close>, \<^verbatim>\<open>useRef\<close>).\<close>

definition initial_chat_state :: chat_state where
  "initial_chat_state =
     \<lparr>currentSession = None, messages = [], messageInput = [], isSending = False,
      isPolling = False, debugInfo = None, pollingIntervalRef = None,
      timers = Map.empty, lastTimer = 0, toasts = []\<rparr>"

text \<open>
  The loop started by the last \<^verbatim>\<open>startPolling\<close> is running: the ref holds its interval,
  the interval is in the browser's table with its period, and the typing indicator is on.
\<close>

definition polling_on :: "nat \<Rightarrow> chat_state \<Rightarrow> bool" where
  "polling_on t s =
     (pollingIntervalRef s = Some t \<and> t \<noteq> 0 \<and> timers s t = Some 1000 \<and> isPolling s)"

text \<open>Sample data: a session with a typed question, and the messages of a first turn.\<close>

definition typed_state :: chat_state where
  "typed_state =
     initial_chat_state
       \<lparr>currentSession := Some \<lparr>session_id = ''550e8400'', session_title = ''Learning about ML''\<rparr>,
        messageInput := '' What is supervised learning? ''\<rparr>"

definition user_msg :: message where
  "user_msg =
     \<lparr>msg_role = ''user'', msg_content = ''What is supervised learning?'',
      msg_timestamp = ''2025-01-01T10:00:00Z'', msg_id = Val (KNum 1)\<rparr>"

definition assistant_msg :: message where
  "assistant_msg =
     \<lparr>msg_role = ''assistant'', msg_content = ''Supervised learning uses labelled data.'',
      msg_timestamp = ''2025-01-01T10:00:07Z'', msg_id = Val (KNum 2)\<rparr>"

text \<open>
  The state after a first send that went through and before any poll has succeeded, with
  a second question typed.
\<close>

definition resent_state :: chat_state where
  "resent_state =
     (sendMessage ''2025-01-01T10:00:00Z'' 1735725600000 (Ok ()) typed_state)
       \<lparr>messageInput := ''And unsupervised learning?''\<rparr>"

text \<open>
  Two questions sent one after the other, the second before the first was answered: the
  state after the second send, and the poll outcome that shows the reply to the first.
\<close>

definition second_user_msg :: message where
  "second_user_msg =
     \<lparr>msg_role = ''user'', msg_content = ''And unsupervised learning?'',
      msg_timestamp = ''2025-01-01T10:00:03Z'', msg_id = Val (KNum 3)\<rparr>"

definition both_sent_state :: chat_state where
  "both_sent_state = sendMessage ''2025-01-01T10:00:03Z'' 1735725603000 (Ok ()) resent_state"

definition first_reply :: "messages_data http_result" where
  "first_reply = Ok (Bare [user_msg, second_user_msg, assistant_msg])"

section \<open>The server side, as the specification describes it\<close>

text \<open>
  Modelled from the spec: the Gateway's read of a session's message list, which belongs to
  the backend and is not among the sources. "Get session messages: ordered by timestamp
  ascending"; "reading twice must not mutate state". The message log of a session is
  append-only and kept in timestamp order, so the read returns the log as it stands and
  hands the store back untouched; an unknown session is answered with status 404.
\<close>

record server_state =
  session_log :: "string \<rightharpoonup> message list"

definition get_session_messages ::
  "server_state \<Rightarrow> string \<Rightarrow> server_state \<times> messages_data http_result" where
  "get_session_messages sv sid =
     (sv, case session_log sv sid of
            None \<Rightarrow> Failed (Some 404)
          | Some ms \<Rightarrow> Ok (Bare ms))"

text \<open>
  One firing of the interval \<open>t\<close> of the client against this server: the request goes out
  for the current session and its outcome is handled by \<open>poll_tick\<close>; without a session
  the callback fails before any request is made.
\<close>

definition session_response :: "server_state \<Rightarrow> chat_state \<Rightarrow> messages_data http_result" where
  "session_response sv s =
     (case currentSession s of
        None \<Rightarrow> Failed None
      | Some cs \<Rightarrow> snd (get_session_messages sv (session_id cs)))"

definition poll_server :: "nat \<Rightarrow> server_state \<times> chat_state \<Rightarrow> server_state \<times> chat_state" where
  "poll_server t p =
     (case p of (sv, s) \<Rightarrow>
        if timers s t = None then (sv, s)
        else case currentSession s of
               None \<Rightarrow> (sv, poll_tick t (session_response sv s) s)
             | Some cs \<Rightarrow>
                 (fst (get_session_messages sv (session_id cs)),
                  poll_tick t (session_response sv s) s))"

text \<open>
  Modelled from the spec: the key-concept extraction of the Analysis Worker, which belongs
  to the backend and is not among the sources. "Key-concept extraction (capped at 5
  concepts, deduplicated, order = relevance as returned by the extractor)"; duplicates
  are compared case-insensitively. The first occurrence of a concept is kept, in the
  extractor's order, and the list is cut after five.
\<close>

fun dedup_concepts :: "string list \<Rightarrow> string list \<Rightarrow> string list" where
  "dedup_concepts seen [] = []"
| "dedup_concepts seen (c # cs) =
     (if toLowerCase c \<in> set seen then dedup_concepts seen cs
      else c # dedup_concepts (toLowerCase c # seen) cs)"

definition extract_key_concepts :: "string list \<Rightarrow> string list" where
  "extract_key_concepts raw = take 5 (dedup_concepts [] raw)"

text \<open>
  Modelled from the spec: what a successful analysis writes to a Content ("update Content
  fields, mark job succeeded, set processed=true").
\<close>

definition analysis_succeeded ::
  "string list \<Rightarrow> string \<Rightarrow> int \<Rightarrow> content_item \<Rightarrow> content_item" where
  "analysis_succeeded raw_concepts level minutes c =
     c\<lparr>processed := True,
       difficulty_level := Val level,
       key_concepts := Val (extract_key_concepts raw_concepts),
       estimated_study_time := Val minutes\<rparr>"

text \<open>
  Sample data: a server that holds the user's message of the session only, and the
  state of the chat tab after the send, its loop running.
\<close>

definition sample_server :: server_state where
  "sample_server = \<lparr>session_log = [''550e8400'' \<mapsto> [user_msg]]\<rparr>"

definition polling_state :: chat_state where
  "polling_state = sendMessage ''2025-01-01T10:00:00Z'' 1735725600000 (Ok ()) typed_state"


text \<open>
  Sample data for the library: a filter on the status alone, an analysed Content, one
  that waits for its analysis, and one whose analysis has failed for good (the Content
  stays \<open>processed = false\<close>, with no analysis fields).
\<close>

definition status_filter :: "string \<Rightarrow> filters" where
  "status_filter st = \<lparr>filter_search = [], filter_difficulty = [], filter_status = st\<rparr>"

definition analyzed_item :: content_item where
  "analyzed_item =
     \<lparr>content_id = 1, content_name = ''Intro to ML'',
      content_text = ''Machine learning is a subset of AI...'', processed = True,
      difficulty_level = Val ''beginner'', key_concepts = Val [''machine learning'', ''AI''],
      estimated_study_time = Val 15, created_at = ''2025-01-01T09:00:00Z''\<rparr>"

definition pending_item :: content_item where
  "pending_item =
     \<lparr>content_id = 2, content_name = ''Graph theory'',
      content_text = ''A graph is a set of vertices...'', processed = False,
      difficulty_level = Null, key_concepts = Val [],
      estimated_study_time = Null, created_at = ''2025-01-01T09:05:00Z''\<rparr>"

definition failed_item :: content_item where
  "failed_item =
     \<lparr>content_id = 3, content_name = ''Broken upload'',
      content_text = ''...'', processed = False,
      difficulty_level = Null, key_concepts = Val [],
      estimated_study_time = Null, created_at = ''2024-12-01T09:00:00Z''\<rparr>"

text \<open>
  Sample data: concepts as an extractor may return them, with repetitions in other case.
\<close>

definition raw_concepts :: "string list" where
  "raw_concepts = [''Machine Learning'', ''AI'', ''machine learning'', ''Data'', ''Models'',
                   ''ai'', ''Training'', ''Inference'']"

text \<open>
  The labels of a rendered section, the section without the items of a label, and a
  sample trace of a query answered by the keyword path alone, the vector path being
  down: no vector timing, and the error annotated.
\<close>

definition item_labels :: "debug_item list \<Rightarrow> string list" where
  "item_labels items = map item_label items"

definition without_label :: "string \<Rightarrow> debug_item list \<Rightarrow> debug_item list" where
  "without_label l items = filter (\<lambda>i. item_label i \<noteq> l) items"

definition keyword_only_trace :: query_analysis where
  "keyword_only_trace =
     \<lparr>original_query = ''What is supervised learning?'',
      extracted_keywords = Val [''supervised'', ''learning''],
      embedding_model = ''text-embedding-3-small'',
      search_time_ms = 42,
      keyword_search_time_ms = Val 42,
      vector_search_time_ms = Undefined,
      total_indexed_contents = 3,
      qa_error = Val ''vector backend unavailable''\<rparr>"

text \<open>
  Sample data for the upload tab: the empty form, and a small file whose name is \<open>txt\<close>,
  with no dot in it. \<open>accepted\<close> says that the selection handed the file to the reader.
\<close>

definition empty_upload :: upload_state where
  "empty_upload = \<lparr>formData = \<lparr>form_name = [], form_content = []\<rparr>,
                    upload_toasts = [], reading = []\<rparr>"

definition extensionless_file :: js_file where
  "extensionless_file = \<lparr>file_name = ''txt'', file_size = 5\<rparr>"

definition accepted :: "js_file \<Rightarrow> upload_state \<Rightarrow> bool" where
  "accepted file st =
     (case handleFileSelect file st of
        None \<Rightarrow> False
      | Some st' \<Rightarrow> reading st' = reading st @ [file])"

section \<open>Verified properties\<close>

subsection \<open>The polling loop\<close>

lemma polling_on_sendMessage:
  "can_send s \<Longrightarrow> polling_on (Suc (lastTimer s)) (sendMessage stamp now (Ok ack) s)"
  by (simp add: polling_on_def sendMessage_def sendMessage_settle_def sendMessage_begin_def
      startPolling_def toast_def Let_def)

lemma poll_tick_Failed: "poll_tick t (Failed e) s = s"
  by (simp add: poll_tick_def)

lemma poll_tick_continue:
  "polling_on t s \<Longrightarrow> \<not> ends_polling (Ok d) \<Longrightarrow>
   poll_tick t (Ok d) s = s\<lparr>messages := newMessages_of d\<rparr>"
  by (auto simp: polling_on_def poll_tick_def ends_polling_def lastMessage_of_def Let_def)

lemma poll_tick_stop:
  "polling_on t s \<Longrightarrow> ends_polling (Ok d) \<Longrightarrow>
   poll_tick t (Ok d) s =
     (case debug_info_of d of None \<Rightarrow> s | Some dbg \<Rightarrow> s\<lparr>debugInfo := Some dbg\<rparr>)
       \<lparr>messages := newMessages_of d, isPolling := False,
        timers := (timers s)(t := None), pollingIntervalRef := None,
        toasts := toasts s @ [''AI has responded!'']\<rparr>"
  by (auto simp: polling_on_def poll_tick_def ends_polling_def lastMessage_of_def Let_def
      stopPolling_def toast_def split: option.splits)

lemma polling_on_tick:
  "polling_on t s \<Longrightarrow> \<not> ends_polling r \<Longrightarrow> polling_on t (poll_tick t r s)"
  by (cases r) (simp_all add: poll_tick_Failed poll_tick_continue, simp add: polling_on_def)

lemma polling_on_run:
  "polling_on t s \<Longrightarrow> \<forall>r \<in> set rs. \<not> ends_polling r \<Longrightarrow> polling_on t (poll_run t rs s)"
  by (induction rs arbitrary: s) (simp_all add: polling_on_tick)

lemma poll_tick_stops_iff:
  "polling_on t s \<Longrightarrow> (timers (poll_tick t r s) t = None) = ends_polling r"
proof (cases r)
  case (Failed e)
  then show "polling_on t s \<Longrightarrow> ?thesis"
    by (simp add: poll_tick_Failed polling_on_def ends_polling_def)
next
  case (Ok d)
  assume p: "polling_on t s"
  show ?thesis
  proof (cases "ends_polling (Ok d)")
    case True
    with p Ok show ?thesis by (simp add: poll_tick_stop split: option.splits)
  next
    case False
    with p Ok show ?thesis by (simp add: poll_tick_continue polling_on_def)
  qed
qed

lemma poll_tick_isPolling_iff:
  "polling_on t s \<Longrightarrow> isPolling (poll_tick t r s) = (\<not> ends_polling r)"
proof (cases "ends_polling r")
  case False
  assume "polling_on t s"
  with False have "polling_on t (poll_tick t r s)" by (simp add: polling_on_tick)
  with False show ?thesis by (simp add: polling_on_def)
next
  case True
  assume p: "polling_on t s"
  from True obtain d where r: "r = Ok d" by (cases r) (simp_all add: ends_polling_def)
  with p True show ?thesis by (simp add: poll_tick_stop split: option.splits)
qed

lemma poll_tick_messages:
  "polling_on t s \<Longrightarrow> messages (poll_tick t (Ok d) s) = newMessages_of d"
  by (cases "ends_polling (Ok d)")
     (simp_all add: poll_tick_stop poll_tick_continue split: option.splits)

lemma poll_run_Failed: "poll_run t (replicate n (Failed e)) s = s"
  by (induction n) (simp_all add: poll_tick_Failed)

lemma poll_run_only_messages:
  "polling_on t s \<Longrightarrow> \<forall>r \<in> set rs. \<not> ends_polling r \<Longrightarrow>
   poll_run t rs s = s\<lparr>messages := messages (poll_run t rs s)\<rparr>"
proof (induction rs arbitrary: s)
  case Nil
  then show ?case by simp
next
  case (Cons r rs)
  have p: "polling_on t (poll_tick t r s)"
    using Cons.prems by (simp add: polling_on_tick)
  have ih: "poll_run t rs (poll_tick t r s) =
        (poll_tick t r s)\<lparr>messages := messages (poll_run t rs (poll_tick t r s))\<rparr>"
    using Cons.IH [OF p] Cons.prems(2) by simp
  have step: "\<exists>ms. poll_tick t r s = s\<lparr>messages := ms\<rparr>"
  proof (cases r)
    case (Failed e)
    have "s = s\<lparr>messages := messages s\<rparr>" by simp
    then show ?thesis unfolding Failed poll_tick_Failed by blast
  next
    case (Ok d)
    then show ?thesis using Cons.prems by (auto simp: poll_tick_continue)
  qed
  then obtain ms where ms: "poll_tick t r s = s\<lparr>messages := ms\<rparr>" ..
  show ?case
    using ih by (simp add: ms)
qed

lemma can_send_typed: "can_send typed_state"
  by (simp add: can_send_def typed_state_def initial_chat_state_def trim_def is_space_def)

lemma lastTimer_typed: "lastTimer typed_state = 0"
  by (simp add: typed_state_def initial_chat_state_def)

text \<open>
  A single loop. After a send, the loop that the send started polls at a fixed interval
  (1000 ms). As long as no poll has returned a list whose last message has role
  \<open>assistant\<close>, and nothing else is sent, the loop is running; the next poll stops it
  exactly when the last message of its list has role \<open>assistant\<close>, and every poll that
  returns a list puts that list on display, the loop going on when the list does not end
  with an assistant message.
\<close>

lemma single_loop_stops_exactly_on_assistant:
  assumes "can_send s" and "\<forall>r \<in> set rs. \<not> ends_polling r"
  shows "let t = Suc (lastTimer s);
             s2 = poll_run t rs (sendMessage stamp now (Ok ack) s)
         in timers s2 t = Some 1000 \<and>
            (timers (poll_tick t r s2) t = None) = ends_polling r \<and>
            isPolling (poll_tick t r s2) = (\<not> ends_polling r) \<and>
            (\<forall>d. r = Ok d \<longrightarrow> messages (poll_tick t r s2) = newMessages_of d) \<and>
            (\<not> ends_polling r \<longrightarrow> timers (poll_tick t r s2) t = Some 1000)"
proof -
  define t where "t = Suc (lastTimer s)"
  define s2 where "s2 = poll_run t rs (sendMessage stamp now (Ok ack) s)"
  have p: "polling_on t s2"
    unfolding s2_def t_def using assms by (simp add: polling_on_run polling_on_sendMessage)
  have a: "timers s2 t = Some 1000"
    using p by (simp add: polling_on_def)
  have b: "(timers (poll_tick t r s2) t = None) = ends_polling r"
    using p by (rule poll_tick_stops_iff)
  have c: "isPolling (poll_tick t r s2) = (\<not> ends_polling r)"
    using p by (rule poll_tick_isPolling_iff)
  have d: "\<forall>d. r = Ok d \<longrightarrow> messages (poll_tick t r s2) = newMessages_of d"
    using p by (simp add: poll_tick_messages)
  have e: "\<not> ends_polling r \<longrightarrow> timers (poll_tick t r s2) t = Some 1000"
    using p polling_on_tick [of t s2 r] by (simp add: polling_on_def)
  show ?thesis
    using a b c d e by (simp add: Let_def t_def s2_def)
qed

lemma single_loop_stops_exactly_on_assistant_example:
  "can_send typed_state \<and>
   \<not> ends_polling (Failed None) \<and> \<not> ends_polling (Ok (Bare [user_msg])) \<and>
   (let s2 = poll_run 1 [Failed None, Ok (Bare [user_msg])]
               (sendMessage ''2025-01-01T10:00:00Z'' 1735725600000 (Ok ()) typed_state);
        s3 = poll_tick 1 (Ok (Bare [user_msg, assistant_msg])) s2
    in timers s2 1 = Some 1000 \<and> timers s3 1 = None \<and> \<not> isPolling s3 \<and>
       messages s3 = [user_msg, assistant_msg])"
proof -
  have h1: "can_send typed_state"
    by (rule can_send_typed)
  have h2: "\<forall>r \<in> set [Failed None, Ok (Bare [user_msg])]. \<not> ends_polling r"
    by (simp add: ends_polling_def newMessages_of_def user_msg_def)
  have e: "ends_polling (Ok (Bare [user_msg, assistant_msg]))"
    by (simp add: ends_polling_def newMessages_of_def assistant_msg_def)
  show ?thesis
    using h1 h2 e
      single_loop_stops_exactly_on_assistant [OF h1 h2,
        where r = "Ok (Bare [user_msg, assistant_msg])" and stamp = "''2025-01-01T10:00:00Z''"
          and now = 1735725600000 and ack = "()"]
    by (simp add: Let_def lastTimer_typed newMessages_of_def)
qed

text \<open>
  C2, as stated, fails: the loop has no bound. From the state after a send, 86400 polls
  that all fail (a day of them) leave the state as it was, the interval still running;
  and no number of polls is enough to be sure that the interval has been cleared.
\<close>

theorem polling_bounded_counterexample:
  "poll_run 1 (replicate 86400 (Failed None))
     (sendMessage ''2025-01-01T10:00:00Z'' 1735725600000 (Ok ()) typed_state)
   = sendMessage ''2025-01-01T10:00:00Z'' 1735725600000 (Ok ()) typed_state \<and>
   \<not> (\<exists>N. \<forall>rs. N \<le> length rs \<longrightarrow>
          timers (poll_run 1 rs
            (sendMessage ''2025-01-01T10:00:00Z'' 1735725600000 (Ok ()) typed_state)) 1 = None)"
proof
  show "poll_run 1 (replicate 86400 (Failed None))
     (sendMessage ''2025-01-01T10:00:00Z'' 1735725600000 (Ok ()) typed_state)
   = sendMessage ''2025-01-01T10:00:00Z'' 1735725600000 (Ok ()) typed_state"
    by (rule poll_run_Failed)
next
  let ?s1 = "sendMessage ''2025-01-01T10:00:00Z'' 1735725600000 (Ok ()) typed_state"
  have p: "polling_on 1 ?s1"
    using polling_on_sendMessage [OF can_send_typed] by (simp add: lastTimer_typed)
  show "\<not> (\<exists>N. \<forall>rs. N \<le> length rs \<longrightarrow> timers (poll_run 1 rs ?s1) 1 = None)"
  proof
    assume "\<exists>N. \<forall>rs. N \<le> length rs \<longrightarrow> timers (poll_run 1 rs ?s1) 1 = None"
    then obtain N where N: "\<forall>rs. N \<le> length rs \<longrightarrow> timers (poll_run 1 rs ?s1) 1 = None" ..
    have "N \<le> length (replicate N (Failed None :: messages_data http_result))" by simp
    with N have "timers (poll_run 1 (replicate N (Failed None)) ?s1) 1 = None" by blast
    then have "timers ?s1 1 = None" by (simp add: poll_run_Failed)
    with p show False by (simp add: polling_on_def)
  qed
qed

text \<open>
  C2, amended. The polling loop has no maximum duration and no "still processing" state:
  as long as no poll returns a list that ends with an assistant message, the loop is
  still polling after any number of polls, with the same interval and the same ref, and
  nothing of the state has changed but the messages on display; when every poll request
  fails, the state has not changed at all.
\<close>

theorem polling_never_gives_up:
  assumes "can_send s" and "\<forall>r \<in> set rs. \<not> ends_polling r"
  shows "let t = Suc (lastTimer s);
             s1 = sendMessage stamp now (Ok ack) s;
             s2 = poll_run t rs s1
         in isPolling s2 \<and> timers s2 t = Some 1000 \<and> pollingIntervalRef s2 = Some t \<and>
            s2 = s1\<lparr>messages := messages s2\<rparr> \<and>
            ((\<forall>r \<in> set rs. \<exists>e. r = Failed e) \<longrightarrow> s2 = s1)"
proof -
  define t where "t = Suc (lastTimer s)"
  define s1 where "s1 = sendMessage stamp now (Ok ack) s"
  define s2 where "s2 = poll_run t rs s1"
  have p1: "polling_on t s1"
    unfolding s1_def t_def using assms(1) by (rule polling_on_sendMessage)
  have p2: "polling_on t s2"
    unfolding s2_def using p1 assms(2) by (rule polling_on_run)
  have same: "s2 = s1\<lparr>messages := messages s2\<rparr>"
    unfolding s2_def using p1 assms(2) by (rule poll_run_only_messages)
  have errs: "(\<forall>r \<in> set rs. \<exists>e. r = Failed e) \<longrightarrow> poll_run t rs s1 = s1"
    by (induction rs) (auto simp: poll_tick_Failed)
  show ?thesis
    using p2 same errs
    by (simp add: Let_def polling_on_def t_def [symmetric] s1_def [symmetric] s2_def [symmetric])
qed

theorem polling_never_gives_up_witness:
  "can_send typed_state \<and>
   \<not> ends_polling (Failed None) \<and> \<not> ends_polling (Ok (Bare [user_msg])) \<and>
   \<not> ends_polling (Failed (Some 500)) \<and>
   (let s1 = sendMessage ''2025-01-01T10:00:00Z'' 1735725600000 (Ok ()) typed_state;
        s2 = poll_run 1 [Failed None, Ok (Bare [user_msg]), Failed (Some 500)] s1
    in isPolling s2 \<and> timers s2 1 = Some 1000 \<and> pollingIntervalRef s2 = Some 1 \<and>
       s2 = s1\<lparr>messages := messages s2\<rparr>)"
proof -
  have h1: "can_send typed_state"
    by (rule can_send_typed)
  have h2: "\<forall>r \<in> set [Failed None, Ok (Bare [user_msg]), Failed (Some 500)]. \<not> ends_polling r"
    by (simp add: ends_polling_def newMessages_of_def user_msg_def)
  show ?thesis
    using h1 h2
      polling_never_gives_up [OF h1 h2, where stamp = "''2025-01-01T10:00:00Z''"
          and now = 1735725600000 and ack = "()"]
    by (simp add: Let_def lastTimer_typed)
qed

subsection \<open>Sending a message\<close>

lemma sendMessage_Ok:
  "can_send s \<Longrightarrow>
   sendMessage stamp now (Ok response) s =
     s\<lparr>messageInput := [], isSending := False,
        messages := messages s @ [tempUserMessage stamp now s],
        isPolling := True,
        timers := (timers s)(Suc (lastTimer s) \<mapsto> 1000),
        lastTimer := Suc (lastTimer s),
        pollingIntervalRef := Some (Suc (lastTimer s)),
        toasts := toasts s @ [''Message sent! AI is thinking...'']\<rparr>"
  by (simp add: sendMessage_def sendMessage_settle_def sendMessage_begin_def startPolling_def
      toast_def Let_def)

lemma sendMessage_Failed:
  "can_send s \<Longrightarrow>
   sendMessage stamp now (Failed status) s =
     s\<lparr>messageInput := [], isSending := False,
        messages := filter (\<lambda>msg. msg_id msg \<noteq> Val (KNum now)) (messages s),
        toasts := toasts s @ [if status = Some 401 then ''Please log in to send messages''
                              else ''Failed to send message'']\<rparr>"
  by (simp add: sendMessage_def sendMessage_settle_def sendMessage_begin_def
      toast_def Let_def tempUserMessage_def)

text \<open>
  C3. Posting a message puts the user's message on display synchronously: it is the last
  message of the list before the request is answered, hence before any reply has been
  generated. The response to the post is only an acknowledgement: the state after a
  successful send is the same whatever the response holds, its messages are the former
  ones and the user's message, and the reply reaches the display with a later poll, which
  replaces the list by the one it read.
\<close>

theorem sendMessage_appends_and_ignores_response:
  assumes "can_send s"
  shows "messages (sendMessage_begin stamp now s) = messages s @ [tempUserMessage stamp now s] \<and>
         msg_role (tempUserMessage stamp now s) = ''user'' \<and>
         msg_content (tempUserMessage stamp now s) = trim (messageInput s) \<and>
         messages (sendMessage stamp now (Ok response) s) =
           messages s @ [tempUserMessage stamp now s] \<and>
         debugInfo (sendMessage stamp now (Ok response) s) = debugInfo s \<and>
         sendMessage stamp now (Ok ()) s = sendMessage stamp now (Ok response) s \<and>
         messages (poll_tick (Suc (lastTimer s)) (Ok d) (sendMessage stamp now (Ok response) s))
           = newMessages_of d"
proof -
  have a: "messages (sendMessage_begin stamp now s) = messages s @ [tempUserMessage stamp now s]"
    by (simp add: sendMessage_begin_def)
  have b: "msg_role (tempUserMessage stamp now s) = ''user'' \<and>
         msg_content (tempUserMessage stamp now s) = trim (messageInput s)"
    by (simp add: tempUserMessage_def)
  have c: "messages (sendMessage stamp now (Ok response) s) =
           messages s @ [tempUserMessage stamp now s] \<and>
         debugInfo (sendMessage stamp now (Ok response) s) = debugInfo s"
    using assms by (simp add: sendMessage_Ok)
  have d: "sendMessage stamp now (Ok ()) s = sendMessage stamp now (Ok response) s"
    using assms by (simp add: sendMessage_Ok)
  have e: "messages (poll_tick (Suc (lastTimer s)) (Ok d) (sendMessage stamp now (Ok response) s))
           = newMessages_of d"
    using polling_on_sendMessage [OF assms] by (rule poll_tick_messages)
  show ?thesis
    using a b c d e by simp
qed

theorem sendMessage_appends_and_ignores_response_witness:
  "can_send typed_state \<and>
   messages (sendMessage_begin ''2025-01-01T10:00:00Z'' 1735725600000 typed_state) =
     [\<lparr>msg_role = ''user'', msg_content = ''What is supervised learning?'',
       msg_timestamp = ''2025-01-01T10:00:00Z'', msg_id = Val (KNum 1735725600000)\<rparr>] \<and>
   messages (sendMessage ''2025-01-01T10:00:00Z'' 1735725600000 (Ok assistant_msg) typed_state) =
     [\<lparr>msg_role = ''user'', msg_content = ''What is supervised learning?'',
       msg_timestamp = ''2025-01-01T10:00:00Z'', msg_id = Val (KNum 1735725600000)\<rparr>] \<and>
   messages (poll_tick 1 (Ok (Bare [user_msg, assistant_msg]))
      (sendMessage ''2025-01-01T10:00:00Z'' 1735725600000 (Ok assistant_msg) typed_state)) =
     [user_msg, assistant_msg]"
proof -
  have h: "can_send typed_state"
    by (rule can_send_typed)
  have t: "tempUserMessage ''2025-01-01T10:00:00Z'' 1735725600000 typed_state =
     \<lparr>msg_role = ''user'', msg_content = ''What is supervised learning?'',
       msg_timestamp = ''2025-01-01T10:00:00Z'', msg_id = Val (KNum 1735725600000)\<rparr>"
    by (simp add: tempUserMessage_def typed_state_def trim_def is_space_def)
  have m: "messages typed_state = []"
    by (simp add: typed_state_def initial_chat_state_def)
  show ?thesis
    using h sendMessage_appends_and_ignores_response [OF h,
        where stamp = "''2025-01-01T10:00:00Z''" and now = 1735725600000
          and response = assistant_msg and d = "Bare [user_msg, assistant_msg]"]
    by (simp add: t m lastTimer_typed newMessages_of_def)
qed

lemma can_send_resent: "can_send resent_state"
  by (simp add: resent_state_def sendMessage_Ok can_send_typed)
     (simp add: can_send_def typed_state_def initial_chat_state_def trim_def is_space_def)

subsection \<open>A second send while the loop runs\<close>

lemma poll_tick_other_interval:
  "pollingIntervalRef s \<noteq> Some t \<Longrightarrow>
   timers (poll_tick t r s) t = timers s t \<and> pollingIntervalRef (poll_tick t r s) \<noteq> Some t"
  by (cases r)
     (auto simp: poll_tick_def lastMessage_of_def Let_def stopPolling_def toast_def
       split: option.splits)

lemma leaked_interval_never_cleared:
  "pollingIntervalRef s \<noteq> Some t \<Longrightarrow> timers (poll_run t rs s) t = timers s t"
proof (induction rs arbitrary: s)
  case Nil
  then show ?case by simp
next
  case (Cons r rs)
  from Cons.prems have k: "timers (poll_tick t r s) t = timers s t"
    and n: "pollingIntervalRef (poll_tick t r s) \<noteq> Some t"
    by (simp_all add: poll_tick_other_interval)
  from Cons.IH [OF n] k show ?case by simp
qed

lemma poll_tick_stop_ref:
  "timers s t \<noteq> None \<Longrightarrow> pollingIntervalRef s = Some u \<Longrightarrow> u \<noteq> 0 \<Longrightarrow>
   ends_polling (Ok d) \<Longrightarrow>
   poll_tick t (Ok d) s =
     (case debug_info_of d of None \<Rightarrow> s | Some dbg \<Rightarrow> s\<lparr>debugInfo := Some dbg\<rparr>)
       \<lparr>messages := newMessages_of d, isPolling := False,
        timers := (timers s)(u := None), pollingIntervalRef := None,
        toasts := toasts s @ [''AI has responded!'']\<rparr>"
  by (auto simp: poll_tick_def ends_polling_def lastMessage_of_def Let_def
      stopPolling_def toast_def split: option.splits)

lemma poll_tick_stop_no_ref:
  "timers s t \<noteq> None \<Longrightarrow> pollingIntervalRef s = None \<Longrightarrow> ends_polling (Ok d) \<Longrightarrow>
   poll_tick t (Ok d) s =
     (case debug_info_of d of None \<Rightarrow> s | Some dbg \<Rightarrow> s\<lparr>debugInfo := Some dbg\<rparr>)
       \<lparr>messages := newMessages_of d, isPolling := False,
        toasts := toasts s @ [''AI has responded!'']\<rparr>"
  by (auto simp: poll_tick_def ends_polling_def lastMessage_of_def Let_def
      stopPolling_def toast_def split: option.splits)

lemma leaked_interval_toasts:
  "timers s t \<noteq> None \<Longrightarrow> pollingIntervalRef s = None \<Longrightarrow> ends_polling r \<Longrightarrow>
   length (toasts (poll_run t (replicate n r) s)) = length (toasts s) + n"
proof (induction n arbitrary: s)
  case 0
  then show ?case by simp
next
  case (Suc n)
  from Suc.prems(3) obtain d where r: "r = Ok d"
    by (cases r) (simp_all add: ends_polling_def)
  have st: "poll_tick t r s =
     (case debug_info_of d of None \<Rightarrow> s | Some dbg \<Rightarrow> s\<lparr>debugInfo := Some dbg\<rparr>)
       \<lparr>messages := newMessages_of d, isPolling := False,
        toasts := toasts s @ [''AI has responded!'']\<rparr>"
    unfolding r using Suc.prems by (intro poll_tick_stop_no_ref) (simp_all add: r)
  have a: "timers (poll_tick t r s) t \<noteq> None"
    and b: "pollingIntervalRef (poll_tick t r s) = None"
    and c: "length (toasts (poll_tick t r s)) = length (toasts s) + 1"
    using Suc.prems(1,2) by (simp_all add: st split: option.splits)
  from Suc.IH [OF a b Suc.prems(3)] c show ?case by simp
qed

text \<open>
  Two loops. \<^verbatim>\<open>startPolling\<close> overwrites the ref without clearing the interval it held, and
  \<^verbatim>\<open>stopPolling\<close> clears the interval of the ref only: an interval that the ref has lost
  is never cleared by a poll.
\<close>

lemma second_start_leaks:
  assumes "timers s t = Some p" and "timers s u = Some q"
    and "pollingIntervalRef s = Some u" and "u \<noteq> 0" and "t \<noteq> u" and "ends_polling r"
  shows "timers (poll_tick t r s) t = Some p \<and> timers (poll_tick t r s) u = None \<and>
         timers (poll_tick u r s) t = Some p \<and> timers (poll_tick u r s) u = None \<and>
         timers (poll_run t (replicate n r) (poll_tick t r s)) t = Some p \<and>
         length (toasts (poll_run t (replicate n r) (poll_tick t r s))) =
           length (toasts (poll_tick t r s)) + n"
proof -
  from assms(6) obtain d where r: "r = Ok d"
    by (cases r) (simp_all add: ends_polling_def)
  have st: "poll_tick t r s =
     (case debug_info_of d of None \<Rightarrow> s | Some dbg \<Rightarrow> s\<lparr>debugInfo := Some dbg\<rparr>)
       \<lparr>messages := newMessages_of d, isPolling := False,
        timers := (timers s)(u := None), pollingIntervalRef := None,
        toasts := toasts s @ [''AI has responded!'']\<rparr>"
    unfolding r using assms by (intro poll_tick_stop_ref) (simp_all add: r)
  have su: "poll_tick u r s =
     (case debug_info_of d of None \<Rightarrow> s | Some dbg \<Rightarrow> s\<lparr>debugInfo := Some dbg\<rparr>)
       \<lparr>messages := newMessages_of d, isPolling := False,
        timers := (timers s)(u := None), pollingIntervalRef := None,
        toasts := toasts s @ [''AI has responded!'']\<rparr>"
    unfolding r using assms by (intro poll_tick_stop_ref) (simp_all add: r)
  have a: "timers (poll_tick t r s) t = Some p" "timers (poll_tick t r s) u = None"
    "pollingIntervalRef (poll_tick t r s) = None"
    using assms(1,5) by (simp_all add: st split: option.splits)
  have b: "timers (poll_tick u r s) t = Some p" "timers (poll_tick u r s) u = None"
    using assms(1,5) by (simp_all add: su split: option.splits)
  have c: "timers (poll_run t (replicate n r) (poll_tick t r s)) t = Some p"
    using leaked_interval_never_cleared [of "poll_tick t r s" t "replicate n r"] a by simp
  have d: "length (toasts (poll_run t (replicate n r) (poll_tick t r s))) =
           length (toasts (poll_tick t r s)) + n"
    using a assms(6) by (intro leaked_interval_toasts) simp_all
  show ?thesis
    using a b c d by simp
qed

lemma both_sent_state_facts:
  "timers both_sent_state 1 = Some 1000 \<and> timers both_sent_state 2 = Some 1000 \<and>
   pollingIntervalRef both_sent_state = Some 2"
proof -
  have l: "lastTimer resent_state = 1" "timers resent_state 1 = Some 1000"
    by (simp_all add: resent_state_def sendMessage_Ok can_send_typed lastTimer_typed)
  show ?thesis
    unfolding both_sent_state_def
    using l by (simp add: sendMessage_Ok [OF can_send_resent] numeral_2_eq_2)
qed

lemma ends_polling_first_reply: "ends_polling first_reply"
  by (simp add: first_reply_def ends_polling_def newMessages_of_def assistant_msg_def)

text \<open>
  C1 says that after a send the client stops polling exactly when the last message of a
  polled list has role \<open>assistant\<close>. The code after two sends in a row, the second before
  the first was answered: two intervals are running and the ref holds the second. The
  poll that finds the assistant's reply, from either interval, clears the second
  interval and empties the ref; the first interval is still in the browser's table, and
  3600 further polls that each end with the assistant's message leave it there, each
  raising the toast once more.
\<close>

theorem second_send_leaks_first_interval:
  "timers both_sent_state 1 = Some 1000 \<and>
   timers both_sent_state 2 = Some 1000 \<and>
   pollingIntervalRef both_sent_state = Some 2 \<and>
   ends_polling first_reply \<and>
   timers (poll_tick 1 first_reply both_sent_state) 1 = Some 1000 \<and>
   timers (poll_tick 1 first_reply both_sent_state) 2 = None \<and>
   timers (poll_tick 2 first_reply both_sent_state) 1 = Some 1000 \<and>
   timers (poll_tick 2 first_reply both_sent_state) 2 = None \<and>
   timers (poll_run 1 (replicate 3600 first_reply) (poll_tick 1 first_reply both_sent_state)) 1
     = Some 1000 \<and>
   length (toasts (poll_run 1 (replicate 3600 first_reply)
                     (poll_tick 1 first_reply both_sent_state)))
     = length (toasts (poll_tick 1 first_reply both_sent_state)) + 3600"
proof -
  have f: "timers both_sent_state 1 = Some 1000" "timers both_sent_state 2 = Some 1000"
    "pollingIntervalRef both_sent_state = Some 2"
    using both_sent_state_facts by simp_all
  have n: "(2::nat) \<noteq> 0" "(1::nat) \<noteq> 2"
    by simp_all
  show ?thesis
    using f ends_polling_first_reply
      second_start_leaks [OF f n ends_polling_first_reply, of 3600]
    by simp
qed

subsection \<open>Repeated polls\<close>

lemma get_session_messages_pure: "fst (get_session_messages sv sid) = sv"
  by (simp add: get_session_messages_def)

lemma poll_tick_messages_idem:
  "messages (poll_tick t r (poll_tick t r s)) = messages (poll_tick t r s)"
  by (cases r)
     (auto simp: poll_tick_def lastMessage_of_def Let_def stopPolling_def toast_def
       split: option.splits)

lemma poll_tick_currentSession: "currentSession (poll_tick t r s) = currentSession s"
  by (cases r)
     (auto simp: poll_tick_def lastMessage_of_def Let_def stopPolling_def toast_def
       split: option.splits)

lemma session_response_poll_tick:
  "session_response sv (poll_tick t r s) = session_response sv s"
  by (simp add: session_response_def poll_tick_currentSession)

lemma poll_server_eq: "poll_server t (sv, s) = (sv, poll_tick t (session_response sv s) s)"
  by (simp add: poll_server_def get_session_messages_pure poll_tick_def split: option.splits)

text \<open>
  C4. Polling a session's message list repeatedly without posting is idempotent. The read
  hands the server's store back as it was and a second read returns what the first
  returned; a second poll of the client leaves the server as it was and the messages on
  display as the first poll left them, and so does any poll repeated with the same
  outcome. A poll that finds an intermediate state, the user's message alone, is
  tolerated: the message is displayed and the loop goes on.
\<close>

theorem repeated_polls_idempotent:
  "fst (get_session_messages sv sid) = sv \<and>
   snd (get_session_messages (fst (get_session_messages sv sid)) sid) =
     snd (get_session_messages sv sid) \<and>
   fst (poll_server t (poll_server t (sv, s))) = sv \<and>
   messages (snd (poll_server t (poll_server t (sv, s)))) =
     messages (snd (poll_server t (sv, s))) \<and>
   messages (poll_tick t r (poll_tick t r s)) = messages (poll_tick t r s) \<and>
   (polling_on t s \<and> currentSession s = Some cs \<and> session_log sv (session_id cs) = Some [m]
      \<and> msg_role m = ''user'' \<longrightarrow>
      messages (snd (poll_server t (sv, s))) = [m] \<and> polling_on t (snd (poll_server t (sv, s))))"
proof -
  have a: "fst (get_session_messages sv sid) = sv"
    by (rule get_session_messages_pure)
  have b: "snd (get_session_messages (fst (get_session_messages sv sid)) sid) =
     snd (get_session_messages sv sid)"
    by (simp add: a)
  have c: "fst (poll_server t (poll_server t (sv, s))) = sv"
    by (simp add: poll_server_eq)
  have d: "messages (snd (poll_server t (poll_server t (sv, s)))) =
     messages (snd (poll_server t (sv, s)))"
    by (simp add: poll_server_eq session_response_poll_tick poll_tick_messages_idem)
  have e: "messages (poll_tick t r (poll_tick t r s)) = messages (poll_tick t r s)"
    by (rule poll_tick_messages_idem)
  have f: "polling_on t s \<and> currentSession s = Some cs \<and> session_log sv (session_id cs) = Some [m]
      \<and> msg_role m = ''user'' \<longrightarrow>
      messages (snd (poll_server t (sv, s))) = [m] \<and> polling_on t (snd (poll_server t (sv, s)))"
  proof (intro impI, elim conjE)
    assume p: "polling_on t s" and cs: "currentSession s = Some cs"
      and lg: "session_log sv (session_id cs) = Some [m]" and u: "msg_role m = ''user''"
    have r: "session_response sv s = Ok (Bare [m])"
      by (simp add: session_response_def cs get_session_messages_def lg)
    have ne: "\<not> ends_polling (Ok (Bare [m]))"
      by (simp add: ends_polling_def newMessages_of_def u)
    have "poll_tick t (Ok (Bare [m])) s = s\<lparr>messages := [m]\<rparr>"
      using poll_tick_continue [OF p ne] by (simp add: newMessages_of_def)
    moreover have "polling_on t (poll_tick t (Ok (Bare [m])) s)"
      using p ne by (rule polling_on_tick)
    ultimately show "messages (snd (poll_server t (sv, s))) = [m] \<and>
        polling_on t (snd (poll_server t (sv, s)))"
      by (simp add: poll_server_eq r)
  qed
  show ?thesis
    using a b c d e f by blast
qed

lemma polling_on_polling_state: "polling_on 1 polling_state"
  using polling_on_sendMessage [OF can_send_typed]
  by (simp add: polling_state_def lastTimer_typed)

lemma currentSession_polling_state:
  "currentSession polling_state =
     Some \<lparr>session_id = ''550e8400'', session_title = ''Learning about ML''\<rparr>"
  by (simp add: polling_state_def sendMessage_Ok can_send_typed)
     (simp add: typed_state_def initial_chat_state_def)

theorem repeated_polls_idempotent_witness:
  "polling_on 1 polling_state \<and>
   session_log sample_server ''550e8400'' = Some [user_msg] \<and> msg_role user_msg = ''user'' \<and>
   fst (poll_server 1 (poll_server 1 (sample_server, polling_state))) = sample_server \<and>
   messages (snd (poll_server 1 (poll_server 1 (sample_server, polling_state)))) = [user_msg] \<and>
   messages (snd (poll_server 1 (sample_server, polling_state))) = [user_msg] \<and>
   polling_on 1 (snd (poll_server 1 (sample_server, polling_state)))"
proof -
  have l: "session_log sample_server
      (session_id \<lparr>session_id = ''550e8400'', session_title = ''Learning about ML''\<rparr>)
      = Some [user_msg]"
    by (simp add: sample_server_def)
  have u: "msg_role user_msg = ''user''"
    by (simp add: user_msg_def)
  show ?thesis
    using polling_on_polling_state currentSession_polling_state l u
      repeated_polls_idempotent [where t = 1 and sv = sample_server and s = polling_state
        and cs = "\<lparr>session_id = ''550e8400'', session_title = ''Learning about ML''\<rparr>"
        and m = user_msg]
    by simp
qed

subsection \<open>A send that fails\<close>

text \<open>Without a firing in between, \<open>sendMessage_during\<close> is \<^verbatim>\<open>sendMessage\<close>.\<close>

lemma sendMessage_during_Nil: "sendMessage_during stamp now [] result s = sendMessage stamp now result s"
  by (simp add: sendMessage_during_def sendMessage_def)














subsection \<open>The status of a Content\<close>

text \<open>
  C5, as stated, fails. The Content of a failed analysis is shown as "Analyzing...", the
  same as one that still waits; the status filter \<open>processing\<close> keeps both; and
  \<open>failed\<close> and \<open>completed\<close> are not values of the status filter: with either of them
  nothing is filtered out.
\<close>

theorem status_three_values_counterexample:
  "status_text failed_item = ''Analyzing...'' \<and>
   status_text failed_item = status_text pending_item \<and>
   filterContents (status_filter ''processing'') [analyzed_item, pending_item, failed_item]
     = [pending_item, failed_item] \<and>
   filterContents (status_filter ''failed'') [analyzed_item, pending_item, failed_item]
     = [analyzed_item, pending_item, failed_item] \<and>
   filterContents (status_filter ''completed'') [analyzed_item, pending_item, failed_item]
     = [analyzed_item, pending_item, failed_item]"
  by (simp add: status_text_def filterContents_def status_filter_def matches_status_def
      analyzed_item_def pending_item_def failed_item_def)

text \<open>
  C5, amended. The analysis status that the client shows takes exactly two values, read
  off the \<open>processed\<close> flag: "Analyzed" (filter value \<open>processed\<close>) and "Analyzing..."
  (filter value \<open>processing\<close>). Two Contents show the same status exactly when their
  flags agree, so a failed analysis, which leaves the flag off, cannot be told from one
  still in progress; any other value of the status filter keeps every Content.
\<close>

theorem status_two_values:
  "status_text c \<in> {''Analyzed'', ''Analyzing...''} \<and>
   (status_text c = status_text c') = (processed c = processed c') \<and>
   filterContents (status_filter ''processed'') cs = filter processed cs \<and>
   filterContents (status_filter ''processing'') cs = filter (\<lambda>c. \<not> processed c) cs \<and>
   (st \<noteq> ''processed'' \<and> st \<noteq> ''processing'' \<longrightarrow> filterContents (status_filter st) cs = cs)"
proof -
  have a: "status_text c \<in> {''Analyzed'', ''Analyzing...''}"
    by (simp add: status_text_def)
  have b: "(status_text c = status_text c') = (processed c = processed c')"
    by (simp add: status_text_def)
  have m1: "matches_status ''processed'' = processed"
    by (rule ext) (simp add: matches_status_def)
  have m2: "matches_status ''processing'' = (\<lambda>c. \<not> processed c)"
    by (rule ext) (simp add: matches_status_def)
  have m3: "st \<noteq> ''processed'' \<and> st \<noteq> ''processing'' \<longrightarrow> matches_status st = (\<lambda>c. True)"
    by (auto simp: matches_status_def)
  have c: "filterContents (status_filter ''processed'') cs = filter processed cs"
    by (simp add: filterContents_def status_filter_def m1)
  have d: "filterContents (status_filter ''processing'') cs = filter (\<lambda>c. \<not> processed c) cs"
    by (simp add: filterContents_def status_filter_def m2)
  have e: "st \<noteq> ''processed'' \<and> st \<noteq> ''processing'' \<longrightarrow> filterContents (status_filter st) cs = cs"
    using m3 by (simp add: filterContents_def status_filter_def)
  show ?thesis
    using a b c d e by blast
qed

theorem status_two_values_witness:
  "''failed'' \<noteq> ''processed'' \<and> ''failed'' \<noteq> ''processing'' \<and>
   status_text failed_item \<in> {''Analyzed'', ''Analyzing...''} \<and>
   (status_text failed_item = status_text pending_item) \<and>
   filterContents (status_filter ''failed'') [analyzed_item, failed_item]
     = [analyzed_item, failed_item] \<and>
   filterContents (status_filter ''processed'') [analyzed_item, failed_item]
     = [analyzed_item]"
proof -
  have p: "processed analyzed_item" "\<not> processed failed_item" "\<not> processed pending_item"
    by (simp_all add: failed_item_def pending_item_def analyzed_item_def)
  show ?thesis
    using status_two_values [where c = failed_item and c' = pending_item and st = "''failed''"
      and cs = "[analyzed_item, failed_item]"]
    by (auto simp: p)
qed

subsection \<open>Key concepts\<close>

lemma dedup_concepts_fresh:
  "x \<in> set (dedup_concepts seen cs) \<Longrightarrow> toLowerCase x \<notin> set seen"
proof (induction cs arbitrary: seen)
  case Nil
  then show ?case by simp
next
  case (Cons c cs)
  show ?case
  proof (cases "toLowerCase c \<in> set seen")
    case True
    with Cons.prems have "x \<in> set (dedup_concepts seen cs)" by simp
    then show ?thesis by (rule Cons.IH)
  next
    case False
    with Cons.prems have "x = c \<or> x \<in> set (dedup_concepts (toLowerCase c # seen) cs)"
      by simp
    then show ?thesis
    proof
      assume "x = c"
      with False show ?thesis by simp
    next
      assume "x \<in> set (dedup_concepts (toLowerCase c # seen) cs)"
      then have "toLowerCase x \<notin> set (toLowerCase c # seen)" by (rule Cons.IH)
      then show ?thesis by simp
    qed
  qed
qed

lemma dedup_concepts_distinct:
  "distinct (map toLowerCase (dedup_concepts seen cs))"
proof (induction cs arbitrary: seen)
  case Nil
  then show ?case by simp
next
  case (Cons c cs)
  have "toLowerCase c \<notin> set (map toLowerCase (dedup_concepts (toLowerCase c # seen) cs))"
  proof
    assume "toLowerCase c \<in> set (map toLowerCase (dedup_concepts (toLowerCase c # seen) cs))"
    then obtain x where x: "x \<in> set (dedup_concepts (toLowerCase c # seen) cs)"
      and eq: "toLowerCase x = toLowerCase c" by auto
    from x have "toLowerCase x \<notin> set (toLowerCase c # seen)" by (rule dedup_concepts_fresh)
    with eq show False by simp
  qed
  with Cons show ?case by simp
qed

lemma distinct_map_take: "distinct (map f xs) \<Longrightarrow> distinct (map f (take n xs))"
  by (simp add: take_map [symmetric] del: take_map)

text \<open>
  C6. For every analysed Content the list of key concepts has at most five entries and
  no two of them are equal when compared case-insensitively. The list is the one the
  analysis writes to the Content, so the preview of \<^verbatim>\<open>renderConcepts\<close> shows at most three
  concepts and counts at most two more.
\<close>

theorem key_concepts_capped_and_distinct:
  "length (extract_key_concepts raw) \<le> 5 \<and>
   distinct (map toLowerCase (extract_key_concepts raw)) \<and>
   key_concepts (analysis_succeeded raw level minutes c) = Val (extract_key_concepts raw) \<and>
   (case renderConcepts (analysis_succeeded raw level minutes c) of
      None \<Rightarrow> extract_key_concepts raw = []
    | Some p \<Rightarrow> length (visibleConcepts p) \<le> 3 \<and> remainingCount p \<le> 2)"
proof -
  have a: "length (extract_key_concepts raw) \<le> 5"
    by (simp add: extract_key_concepts_def)
  have b: "distinct (map toLowerCase (extract_key_concepts raw))"
    unfolding extract_key_concepts_def
    by (rule distinct_map_take) (rule dedup_concepts_distinct)
  have c: "key_concepts (analysis_succeeded raw level minutes c) = Val (extract_key_concepts raw)"
    by (simp add: analysis_succeeded_def)
  have d: "case renderConcepts (analysis_succeeded raw level minutes c) of
      None \<Rightarrow> extract_key_concepts raw = []
    | Some p \<Rightarrow> length (visibleConcepts p) \<le> 3 \<and> remainingCount p \<le> 2"
    using a by (simp add: renderConcepts_def c)
  show ?thesis
    using a b c d by blast
qed

lemma extract_raw_concepts:
  "extract_key_concepts raw_concepts = [''Machine Learning'', ''AI'', ''Data'', ''Models'', ''Training'']"
  by (simp add: extract_key_concepts_def raw_concepts_def toLowerCase_def to_lower_char_def upper_letters_def lower_letters_def)

theorem key_concepts_capped_and_distinct_witness:
  "length [''Machine Learning'', ''AI'', ''Data'', ''Models'', ''Training''] \<le> (5::nat) \<and>
   key_concepts (analysis_succeeded raw_concepts ''beginner'' 15 pending_item) =
     Val [''Machine Learning'', ''AI'', ''Data'', ''Models'', ''Training''] \<and>
   (case renderConcepts (analysis_succeeded raw_concepts ''beginner'' 15 pending_item) of
      None \<Rightarrow> False
    | Some p \<Rightarrow> length (visibleConcepts p) \<le> 3 \<and> remainingCount p \<le> 2)"
  using key_concepts_capped_and_distinct [where raw = raw_concepts and level = "''beginner''"
      and minutes = 15 and c = pending_item]
  by (simp add: extract_raw_concepts split: option.splits)

subsection \<open>The debug toolbar\<close>

lemma render_without_keyword:
  "render_query_analysis (qa\<lparr>keyword_search_time_ms := Undefined\<rparr>) =
     without_label ''Keyword Search Time:'' (render_query_analysis qa)"
  by (simp add: render_query_analysis_def without_label_def debug_info_item_def
      split: js_opt.splits)

lemma render_without_vector:
  "render_query_analysis (qa\<lparr>vector_search_time_ms := Undefined\<rparr>) =
     without_label ''Vector Search Time:'' (render_query_analysis qa)"
  by (simp add: render_query_analysis_def without_label_def debug_info_item_def
      split: js_opt.splits)

lemma render_without_error:
  "render_query_analysis (qa\<lparr>qa_error := Undefined\<rparr>) =
     without_label ''Error:'' (render_query_analysis qa)"
  by (simp add: render_query_analysis_def without_label_def debug_info_item_def
      truthy_string_def split: js_opt.splits)

lemma render_labels:
  "(''Keyword Search Time:'' \<in> set (item_labels (render_query_analysis qa)))
      = (keyword_search_time_ms qa \<noteq> Undefined) \<and>
   (''Vector Search Time:'' \<in> set (item_labels (render_query_analysis qa)))
      = (vector_search_time_ms qa \<noteq> Undefined) \<and>
   (''Error:'' \<in> set (item_labels (render_query_analysis qa)))
      = truthy_string (qa_error qa)"
  by (auto simp: render_query_analysis_def item_labels_def debug_info_item_def
      truthy_string_def split: js_opt.splits)



text \<open>
  C7. The toolbar handles a trace whose optional fields are absent. For every trace with
  a query analysis the expanded section is rendered. Taking the keyword timing, the
  vector timing or the error annotation away from a trace takes exactly the item of
  that field away from the section and leaves the other items as they were; the item of
  a timing is there exactly when the timing is not \<open>undefined\<close>, and the error item
  exactly when the annotation is a string that is not empty.
\<close>

theorem query_section_omits_absent_fields:
  "query_section (Some \<lparr>dbg_query_analysis = Some qa\<rparr>) True = Some (render_query_analysis qa) \<and>
   render_query_analysis (qa\<lparr>keyword_search_time_ms := Undefined\<rparr>) =
     without_label ''Keyword Search Time:'' (render_query_analysis qa) \<and>
   render_query_analysis (qa\<lparr>vector_search_time_ms := Undefined\<rparr>) =
     without_label ''Vector Search Time:'' (render_query_analysis qa) \<and>
   render_query_analysis (qa\<lparr>qa_error := Undefined\<rparr>) =
     without_label ''Error:'' (render_query_analysis qa) \<and>
   (''Keyword Search Time:'' \<in> set (item_labels (render_query_analysis qa)))
      = (keyword_search_time_ms qa \<noteq> Undefined) \<and>
   (''Vector Search Time:'' \<in> set (item_labels (render_query_analysis qa)))
      = (vector_search_time_ms qa \<noteq> Undefined) \<and>
   (''Error:'' \<in> set (item_labels (render_query_analysis qa)))
      = truthy_string (qa_error qa)"
proof -
  have s: "query_section (Some \<lparr>dbg_query_analysis = Some qa\<rparr>) True
      = Some (render_query_analysis qa)"
    by (simp add: query_section_def)
  show ?thesis
    using s render_without_keyword [of qa] render_without_vector [of qa]
      render_without_error [of qa] render_labels [of qa]
    by blast
qed

theorem query_section_omits_absent_fields_witness:
  "query_section (Some \<lparr>dbg_query_analysis = Some keyword_only_trace\<rparr>) True =
     Some [debug_info_item ''Original Query:'' [Text ''What is supervised learning?''],
           debug_info_item ''Extracted Keywords:'' [Text ''supervised, learning''],
           debug_info_item ''Embedding Model:'' [Text ''text-embedding-3-small''],
           debug_info_item ''Total Search Time:'' [Number 42, Text ''ms''],
           debug_info_item ''Keyword Search Time:'' [Number 42, Text ''ms''],
           debug_info_item ''Total Indexed Contents:'' [Number 3],
           \<lparr>item_label = ''Error:'', item_children = [Text ''vector backend unavailable''],
            item_red = True\<rparr>] \<and>
   ''Vector Search Time:'' \<notin> set (item_labels (render_query_analysis keyword_only_trace))"
proof -
  have r: "render_query_analysis keyword_only_trace =
          [debug_info_item ''Original Query:'' [Text ''What is supervised learning?''],
           debug_info_item ''Extracted Keywords:'' [Text ''supervised, learning''],
           debug_info_item ''Embedding Model:'' [Text ''text-embedding-3-small''],
           debug_info_item ''Total Search Time:'' [Number 42, Text ''ms''],
           debug_info_item ''Keyword Search Time:'' [Number 42, Text ''ms''],
           debug_info_item ''Total Indexed Contents:'' [Number 3],
           \<lparr>item_label = ''Error:'', item_children = [Text ''vector backend unavailable''],
            item_red = True\<rparr>]"
    by (simp add: render_query_analysis_def keyword_only_trace_def truthy_string_def
        child_of_num_def)
  have v: "vector_search_time_ms keyword_only_trace = Undefined"
    by (simp add: keyword_only_trace_def)
  show ?thesis
    using query_section_omits_absent_fields [of keyword_only_trace]
    by (simp add: r v)
qed

subsection \<open>File selection\<close>

lemma split_on_not_Nil: "split_on c xs \<noteq> []"
  by (induction xs) (auto split: list.splits)

lemma split_on_no_sep: "c \<notin> set xs \<Longrightarrow> split_on c xs = [xs]"
  by (induction xs) auto

lemma split_on_sep: "c \<in> set xs \<Longrightarrow> 2 \<le> length (split_on c xs)"
proof (induction xs)
  case Nil
  then show ?case by simp
next
  case (Cons x xs)
  show ?case
  proof (cases "x = c")
    case True
    have "1 \<le> length (split_on c xs)"
      using split_on_not_Nil [of c xs] by (cases "split_on c xs") simp_all
    with True show ?thesis by simp
  next
    case False
    with Cons.prems have "c \<in> set xs" by simp
    then have "2 \<le> length (split_on c xs)" by (rule Cons.IH)
    with False show ?thesis by (cases "split_on c xs") simp_all
  qed
qed

lemma last_split_on:
  "last (split_on c xs) = rev (takeWhile (\<lambda>x. x \<noteq> c) (rev xs))"
proof (induction xs)
  case Nil
  then show ?case by simp
next
  case (Cons x xs)
  show ?case
  proof (cases "x = c")
    case True
    then show ?thesis
      using Cons.IH split_on_not_Nil [of c xs]
      by (simp add: takeWhile_append)
  next
    case False
    show ?thesis
    proof (cases "c \<in> set xs")
      case True
      then have "2 \<le> length (split_on c xs)" by (rule split_on_sep)
      then obtain w v ws where "split_on c xs = w # v # ws"
        by (cases "split_on c xs"; cases "tl (split_on c xs)") auto
      with False True show ?thesis
        using Cons.IH by (auto simp: takeWhile_append)
    next
      case no: False
      with False show ?thesis
        by (simp add: split_on_no_sep takeWhile_append)
    qed
  qed
qed

lemma fileExtension_eq:
  "fileExtension file =
     Some (CHR ''.'' # toLowerCase (rev (takeWhile (\<lambda>x. x \<noteq> CHR ''.'') (rev (file_name file)))))"
  by (simp add: fileExtension_def pop_def split_on_not_Nil last_split_on)

text \<open>The selection never fails: \<open>split\<close> always yields a last segment.\<close>

lemma handleFileSelect_total: "handleFileSelect file st \<noteq> None"
  by (simp add: handleFileSelect_def fileExtension_eq)

text \<open>
  A file that is not accepted leaves the form data as it was, and nothing is read.
\<close>

lemma handleFileSelect_rejects_unchanged:
  "handleFileSelect file st = Some st' \<Longrightarrow> \<not> accepted file st \<Longrightarrow>
   formData st' = formData st \<and> reading st' = reading st"
  by (auto simp: handleFileSelect_def accepted_def split: option.splits if_splits)

lemma to_lower_dot: "to_lower_char CHR ''.'' = CHR ''.''"
  by (simp add: to_lower_char_def upper_letters_def lower_letters_def)

text \<open>
  For a name with a dot, the selection accepts exactly the acceptable files.
\<close>

lemma handleFileSelect_with_dot:
  "CHR ''.'' \<in> set (file_name file) \<Longrightarrow> accepted file st = acceptable_file file"
  by (auto simp: accepted_def handleFileSelect_def fileExtension_eq acceptable_file_def
      extension_of_name_def allowedTypes_def maxSize_def toLowerCase_def to_lower_dot)

text \<open>
  C9 says that a file is accepted only if its extension, lower-cased, is \<open>.txt\<close> or
  \<open>.md\<close>, and that any other file leaves the form data unchanged and is not read. The
  code at a file named \<open>txt\<close>: the name has no extension and the file is not acceptable,
  yet the selection hands it to the reader (\<open>split\<close> returns the whole name, which
  becomes \<open>.txt\<close>), and its content and name then fill the form.
\<close>

theorem handleFileSelect_accepts_name_without_extension:
  "extension_of_name (file_name extensionless_file) = None \<and>
   \<not> acceptable_file extensionless_file \<and>
   handleFileSelect extensionless_file empty_upload =
     Some (empty_upload\<lparr>reading := [extensionless_file]\<rparr>) \<and>
   formData (reader_onload extensionless_file ''some text''
      (empty_upload\<lparr>reading := [extensionless_file]\<rparr>)) =
     \<lparr>form_name = ''txt'', form_content = ''some text''\<rparr>"
  by (simp add: extension_of_name_def acceptable_file_def extensionless_file_def
      handleFileSelect_def fileExtension_def pop_def toLowerCase_def to_lower_char_def upper_letters_def lower_letters_def
      allowedTypes_def maxSize_def empty_upload_def reader_onload_def strip_extension_def)

subsection \<open>The helpers\<close>

lemma js_rem_nonneg: "0 \<le> a \<Longrightarrow> 0 < b \<Longrightarrow> js_rem a b = a mod b"
  by (cases "a = 0") (simp_all add: js_rem_def)

lemma bit_length_le: "x < 2 ^ n \<Longrightarrow> bit_length x \<le> n"
proof (induction n arbitrary: x)
  case 0
  then show ?case by (simp add: bit_length.simps)
next
  case (Suc n)
  show ?case
  proof (cases "x = 0")
    case True
    then show ?thesis by (simp add: bit_length.simps)
  next
    case False
    from Suc.prems have "x div 2 < 2 ^ n" by simp
    then have "bit_length (x div 2) \<le> n" by (rule Suc.IH)
    with False show ?thesis by (subst bit_length.simps) simp
  qed
qed

lemma round_half_even_cases:
  "round_half_even num den = num div den \<or>
   (round_half_even num den = num div den + 1 \<and> den \<le> 2 * (num mod den))"
  by (auto simp: round_half_even_def Let_def)

text \<open>
  Below \<open>2^53\<close> the rounding does not reach the next integer: the quotient by 60 has at
  most 48 binary digits, so at least 5 are left below the point, and a remainder of at
  most 59 sixtieths stays more than half a unit of the last digit away from the next
  integer.
\<close>

lemma js_floor_div_60:
  assumes "60 \<le> a" and "a < 2 ^ 53"
  shows "js_floor_div a 60 = a div 60"
proof -
  define Q where "Q = a div 60"
  define k where "k = 53 - bit_length Q"
  have "a < 60 * 2 ^ 48" using assms(2) by simp
  then have Q48: "Q < 2 ^ 48" unfolding Q_def by (simp add: less_mult_imp_div_less)
  then have n: "bit_length Q \<le> 48" by (rule bit_length_le)
  then have k5: "5 \<le> k" and n53: "bit_length Q \<le> 53" unfolding k_def by simp_all
  have "(2::nat) ^ 5 \<le> 2 ^ k" using k5 by (intro power_increasing) simp_all
  then have p32: "(32::nat) \<le> 2 ^ k" by simp
  define num where "num = a * 2 ^ k"
  define sig where "sig = round_half_even num 60"
  define r where "r = a mod 60"
  have a_eq: "a = 60 * Q + r" unfolding Q_def r_def by simp
  have r60: "r < 60" unfolding r_def by simp
  have num_lo: "60 * (Q * 2 ^ k) \<le> num"
    unfolding num_def using a_eq by (metis le_add1 mult.assoc mult_le_mono1)
  have num_hi: "num + 30 < 60 * ((Q + 1) * 2 ^ k)"
  proof -
    have "a + 1 \<le> 60 * (Q + 1)" using a_eq r60 by simp
    then have "(a + 1) * 2 ^ k \<le> 60 * (Q + 1) * 2 ^ k" by (rule mult_le_mono1)
    then have "num + 2 ^ k \<le> 60 * ((Q + 1) * 2 ^ k)"
      unfolding num_def by (simp add: algebra_simps)
    with p32 show ?thesis by linarith
  qed
  define q0 where "q0 = num div 60"
  define r0 where "r0 = num mod 60"
  have num_eq: "num = 60 * q0 + r0" unfolding q0_def r0_def by simp
  have sig_cases: "sig = q0 \<or> (sig = q0 + 1 \<and> 60 \<le> 2 * r0)"
    unfolding sig_def q0_def r0_def by (rule round_half_even_cases)
  have lo: "Q * 2 ^ k \<le> sig"
  proof -
    have "60 * (Q * 2 ^ k) \<le> 60 * q0 + r0" using num_lo num_eq by simp
    moreover have "r0 < 60" unfolding r0_def by simp
    ultimately have "Q * 2 ^ k \<le> q0" by simp
    with sig_cases show ?thesis by auto
  qed
  have hi: "sig < (Q + 1) * 2 ^ k"
  proof -
    have "60 * sig \<le> num + 30"
      using sig_cases num_eq by auto
    with num_hi show ?thesis by simp
  qed
  have "sig div 2 ^ k = Q"
    using lo hi by (intro div_nat_eqI) (simp_all add: mult.commute)
  moreover have "js_floor_div a 60 = sig div 2 ^ k"
    using assms(1) n53
    by (simp add: js_floor_div_def Let_def Q_def [symmetric] k_def sig_def num_def)
  ultimately show ?thesis by (simp add: Q_def)
qed

lemma bit_length_ge: "2 ^ n \<le> x \<Longrightarrow> n < bit_length x"
proof (induction n arbitrary: x)
  case 0
  then show ?case by (subst bit_length.simps) simp
next
  case (Suc n)
  from Suc.prems have "2 ^ n \<le> x div 2" by simp
  then have "n < bit_length (x div 2)" by (rule Suc.IH)
  moreover have "(0::nat) < 2 ^ Suc n" by simp
  with Suc.prems have "x \<noteq> 0" by linarith
  ultimately show ?case by (subst bit_length.simps) simp
qed

lemma bit_length_eq: "2 ^ n \<le> x \<Longrightarrow> x < 2 ^ Suc n \<Longrightarrow> bit_length x = Suc n"
  using bit_length_ge [of n x] bit_length_le [of x "Suc n"] by simp

lemma bit_length_64: "9223372036854775808 \<le> x \<Longrightarrow> x < 18446744073709551616 \<Longrightarrow> bit_length x = 64"
  using bit_length_eq [of 63 x] by simp

lemma bit_length_65: "bit_length 20000000000000000000 = 65"
  using bit_length_eq [of 64 20000000000000000000] by simp

lemma show_nat_hours: "show_nat 16666666666666665984 = ''16666666666666665984''"
  by (simp add: show_nat.simps digit_char_def)

lemma shortest_decimal_hours: "shortest_decimal 16666666666666665984 = 16666666666666666000"
  by (simp add: shortest_decimal_def show_nat_hours decimal_near_def round_double_def
      round_half_even_def bit_length_64 bit_length_65 List.map_filter_simps upt_rec)

lemma int_toString_safe: "0 \<le> i \<Longrightarrow> i < 2 ^ 53 \<Longrightarrow> int_toString i = show_int i"
proof -
  assume a: "0 \<le> i" "i < 2 ^ 53"
  then have "nat i < 2 ^ 53"
    by (metis nat_less_iff of_nat_numeral of_nat_power)
  with a show ?thesis by (simp add: int_toString_def show_int_def number_toString_def)
qed

lemma hours_safe:
  assumes "60 \<le> minutes" and "minutes \<le> 2 ^ 53 - 1"
  shows "js_floor_div (nat minutes) 60 = nat (minutes div 60)"
    and "number_toString (nat (minutes div 60)) = show_int (minutes div 60)"
proof -
  have lt: "nat minutes < 2 ^ 53"
    using assms by (simp add: nat_less_iff)
  have ge: "60 \<le> nat minutes"
    using assms(1) by simp
  have "js_floor_div (nat minutes) 60 = nat minutes div 60"
    using ge lt by (rule js_floor_div_60)
  also have "\<dots> = nat (minutes div 60)"
    using assms(1) by (simp add: nat_div_distrib)
  finally show "js_floor_div (nat minutes) 60 = nat (minutes div 60)" .
  have nn: "0 \<le> minutes div 60" and sm: "minutes div 60 < 2 ^ 53"
    using assms by simp_all
  then have "int_toString (minutes div 60) = show_int (minutes div 60)"
    by (rule int_toString_safe)
  with nn show "number_toString (nat (minutes div 60)) = show_int (minutes div 60)"
    by (simp add: int_toString_def)
qed

text \<open>
  C10, amended. \<open>formatStudyTime\<close> decomposes its argument faithfully on the integers
  that a double holds exactly: an integer from 1 to 59 is printed as "<minutes> min"; an
  integer from 60 to \<open>2^53 - 1\<close> is split into \<open>h = minutes div 60\<close> and
  \<open>m = minutes mod 60\<close>, printed as "<h>h" when \<open>m = 0\<close> and as "<h>h <m>m" otherwise,
  where \<open>h * 60 + m = minutes\<close>; and \<open>0\<close>, \<open>null\<close> and \<open>undefined\<close> give "TBD".
\<close>

theorem formatStudyTime_decomposition_of_safe_integers:
  "formatStudyTime Undefined = ''TBD'' \<and>
   formatStudyTime Null = ''TBD'' \<and>
   formatStudyTime (Val 0) = ''TBD'' \<and>
   (1 \<le> minutes \<and> minutes < 60 \<longrightarrow>
      formatStudyTime (Val minutes) = show_int minutes @ '' min'') \<and>
   (60 \<le> minutes \<and> minutes \<le> 2 ^ 53 - 1 \<longrightarrow>
      (minutes div 60) * 60 + minutes mod 60 = minutes \<and>
      formatStudyTime (Val minutes) =
        (if minutes mod 60 = 0 then show_int (minutes div 60) @ ''h''
         else show_int (minutes div 60) @ ''h '' @ show_int (minutes mod 60) @ ''m''))"
proof -
  have small: "1 \<le> minutes \<and> minutes < 60 \<longrightarrow>
      formatStudyTime (Val minutes) = show_int minutes @ '' min''"
  proof
    assume m: "1 \<le> minutes \<and> minutes < 60"
    then have "int_toString minutes = show_int minutes"
      by (intro int_toString_safe) simp_all
    with m show "formatStudyTime (Val minutes) = show_int minutes @ '' min''"
      by (simp add: formatStudyTime_def)
  qed
  have large: "60 \<le> minutes \<and> minutes \<le> 2 ^ 53 - 1 \<longrightarrow>
      (minutes div 60) * 60 + minutes mod 60 = minutes \<and>
      formatStudyTime (Val minutes) =
        (if minutes mod 60 = 0 then show_int (minutes div 60) @ ''h''
         else show_int (minutes div 60) @ ''h '' @ show_int (minutes mod 60) @ ''m'')"
  proof
    assume m: "60 \<le> minutes \<and> minutes \<le> 2 ^ 53 - 1"
    then have ge: "60 \<le> minutes" and le: "minutes \<le> 2 ^ 53 - 1" by simp_all
    have r: "js_rem minutes 60 = minutes mod 60"
      using ge by (simp add: js_rem_nonneg)
    have h: "number_toString (js_floor_div (nat minutes) 60) = show_int (minutes div 60)"
      using hours_safe [OF ge le] by simp
    have rs: "int_toString (minutes mod 60) = show_int (minutes mod 60)"
      by (intro int_toString_safe) (simp_all add: order_less_trans [of _ 60])
    show "(minutes div 60) * 60 + minutes mod 60 = minutes \<and>
      formatStudyTime (Val minutes) =
        (if minutes mod 60 = 0 then show_int (minutes div 60) @ ''h''
         else show_int (minutes div 60) @ ''h '' @ show_int (minutes mod 60) @ ''m'')"
      using ge by (simp add: formatStudyTime_def r h rs Let_def)
  qed
  show ?thesis
    using small large by (simp add: formatStudyTime_def)
qed

theorem formatStudyTime_decomposition_of_safe_integers_witness:
  "formatStudyTime (Val 45) = ''45 min'' \<and>
   formatStudyTime (Val 120) = ''2h'' \<and>
   formatStudyTime (Val 135) = ''2h 15m'' \<and>
   (135::int) div 60 * 60 + 135 mod 60 = 135 \<and>
   formatStudyTime (Val 9007199254740991) = ''150119987579016h 31m''"
proof -
  have sn: "show_int 45 = ''45''" "show_int 2 = ''2''" "show_int 15 = ''15''"
    "show_int 150119987579016 = ''150119987579016''" "show_int 31 = ''31''"
    by (simp_all add: show_int_def show_nat.simps digit_char_def)
  show ?thesis
    using formatStudyTime_decomposition_of_safe_integers [of 45]
          formatStudyTime_decomposition_of_safe_integers [of 120]
          formatStudyTime_decomposition_of_safe_integers [of 135]
          formatStudyTime_decomposition_of_safe_integers [of 9007199254740991]
    by (simp add: sn)
qed

lemma bit_length_51: "bit_length 1125899906842624 = 51"
  using bit_length_eq [of 50 1125899906842624] by simp

lemma js_floor_div_beyond: "js_floor_div 67553994410557496 60 = 1125899906842625"
  by (simp add: js_floor_div_def round_half_even_def bit_length_51)

lemma bit_length_quotient: "bit_length 16666666666666666666 = 64"
  by (rule bit_length_64) simp_all

lemma js_floor_div_sextillion: "js_floor_div 1000000000000000000000 60 = 16666666666666665984"
  by (simp add: js_floor_div_def round_half_even_def bit_length_quotient)

lemma bit_length_sextillion: "bit_length 1000000000000000000000 = 70"
  using bit_length_eq [of 69 1000000000000000000000] by simp

text \<open>
  C10, as stated, fails beyond \<open>2^53\<close>, where the quotient is rounded before its floor
  is taken. Both arguments below are doubles. At \<open>67553994410557496\<close> the hours come out
  one more than \<open>minutes div 60\<close>, and at \<open>10^21\<close> they come out as
  \<open>16666666666666665984\<close>, printed with the 17 digits that tell this double from its
  neighbours; in neither case is \<open>h * 60 + m\<close> the argument.
\<close>

theorem formatStudyTime_decomposition_counterexample:
  "round_double 67553994410557496 = 67553994410557496 \<and>
   formatStudyTime (Val 67553994410557496) = ''1125899906842625h 56m'' \<and>
   (67553994410557496::int) div 60 = 1125899906842624 \<and>
   (1125899906842625::int) * 60 + 56 \<noteq> 67553994410557496 \<and>
   round_double 1000000000000000000000 = 1000000000000000000000 \<and>
   formatStudyTime (Val 1000000000000000000000) = ''16666666666666666000h 40m'' \<and>
   (1000000000000000000000::int) div 60 = 16666666666666666666 \<and>
   (16666666666666665984::int) * 60 + 40 \<noteq> 1000000000000000000000"
proof -
  have bl: "bit_length 67553994410557496 = 56"
    using bit_length_eq [of 55 67553994410557496] by simp
  have a: "round_double 67553994410557496 = 67553994410557496"
    by (simp add: round_double_def round_half_even_def bl)
  have sh: "show_nat 1125899906842625 = ''1125899906842625''" "show_nat 56 = ''56''"
    "show_nat 40 = ''40''" "show_nat 16666666666666666000 = ''16666666666666666000''"
    by (simp_all add: show_nat.simps digit_char_def)
  have b: "formatStudyTime (Val 67553994410557496) = ''1125899906842625h 56m''"
    by (simp add: formatStudyTime_def js_floor_div_beyond js_rem_def number_toString_def
        int_toString_def sh)
  have c: "round_double 1000000000000000000000 = 1000000000000000000000"
    by (simp add: round_double_def round_half_even_def bit_length_sextillion)
  have d: "formatStudyTime (Val 1000000000000000000000) = ''16666666666666666000h 40m''"
    by (simp add: formatStudyTime_def js_floor_div_sextillion js_rem_def number_toString_def
        int_toString_def shortest_decimal_hours sh)
  show ?thesis
    using a b c d by simp
qed

end
